theory Spec2Isabelle
  imports Main "HOL-Library.AList"
begin

section \<open>Python values and the primitives the modules use\<close>

text \<open>
  The modules traverse parsed JSON: \<open>None\<close>, booleans, integers, strings, lists and
  dictionaries with string keys. A dictionary is an association list in insertion order;
  \<open>AList.update\<close> is Python's \<open>d[k] = v\<close> (an existing key keeps its position, a new
  key goes to the end) and \<open>map_of\<close> is the lookup. Numbers are integers (the counts
  and identifiers of the service); a string is the list of its characters.
\<close>

datatype json =
    JNull
  | JBool bool
  | JInt int
  | JStr string
  | JList "json list"
  | JDict "(string \<times> json) list"

text \<open>
  Every exception of the source is a value. \<open>Fail msg\<close> is \<open>fail_json(msg=...)\<close>, which
  ends the invocation; \<open>MissingRequired\<close> is the rejection of an invocation by the
  argument spec, with the names of the parameters that are missing.
\<close>

datatype error =
    AttributeError
  | TypeError
  | KeyError
  | IndexError
  | ValueError
  | MissingRequired "string list"
  | Fail string

text \<open>\<open>x.get(k)\<close>: only dictionaries have the method; a missing key gives \<open>None\<close>.\<close>

fun py_get :: "json \<Rightarrow> string \<Rightarrow> error + json" where
  "py_get (JDict kvs) k = (case map_of kvs k of None \<Rightarrow> Inr JNull | Some v \<Rightarrow> Inr v)"
| "py_get _ k = Inl AttributeError"

text \<open>\<open>x.get(k, d)\<close>, with a default.\<close>

fun py_get_default :: "json \<Rightarrow> string \<Rightarrow> json \<Rightarrow> error + json" where
  "py_get_default (JDict kvs) k d = (case map_of kvs k of None \<Rightarrow> Inr d | Some v \<Rightarrow> Inr v)"
| "py_get_default _ k d = Inl AttributeError"

text \<open>
  \<open>x[k]\<close> with a string key: \<open>KeyError\<close> on a dictionary without the key,
  \<open>TypeError\<close> on anything that is not a dictionary.
\<close>

fun py_getitem :: "json \<Rightarrow> string \<Rightarrow> error + json" where
  "py_getitem (JDict kvs) k = (case map_of kvs k of None \<Rightarrow> Inl KeyError | Some v \<Rightarrow> Inr v)"
| "py_getitem _ k = Inl TypeError"

text \<open>
  \<open>x[0]\<close>: the first element of a list or the first character of a string,
  \<open>IndexError\<close> when it is empty; a dictionary with string keys has no key \<open>0\<close>.
\<close>

fun py_getitem0 :: "json \<Rightarrow> error + json" where
  "py_getitem0 (JList []) = Inl IndexError"
| "py_getitem0 (JList (x # xs)) = Inr x"
| "py_getitem0 (JStr []) = Inl IndexError"
| "py_getitem0 (JStr (c # cs)) = Inr (JStr [c])"
| "py_getitem0 (JDict kvs) = Inl KeyError"
| "py_getitem0 _ = Inl TypeError"

text \<open>
  \<open>for x in v\<close>: a list gives its items, a string its characters, a dictionary its
  keys; \<open>None\<close>, booleans and integers are not iterable.
\<close>

fun py_iter :: "json \<Rightarrow> error + json list" where
  "py_iter (JList xs) = Inr xs"
| "py_iter (JStr s) = Inr (map (\<lambda>c. JStr [c]) s)"
| "py_iter (JDict kvs) = Inr (map (\<lambda>kv. JStr (fst kv)) kvs)"
| "py_iter _ = Inl TypeError"

text \<open>
  \<open>x.lower()\<close>: only strings have the method. What \<open>str.lower\<close> does to a string is
  Python's own (it folds every cased letter of Unicode); it is the parameter \<open>str_lower\<close>
  of everything below that lower-cases a key.
\<close>

fun py_lower :: "(string \<Rightarrow> string) \<Rightarrow> json \<Rightarrow> error + string" where
  "py_lower str_lower (JStr s) = Inr (str_lower s)"
| "py_lower str_lower _ = Inl AttributeError"

text \<open>\<open>s.split(c)\<close> for a one-character separator; the result is never empty.\<close>

fun split :: "char \<Rightarrow> string \<Rightarrow> string list" where
  "split c [] = [[]]"
| "split c (x # xs) =
     (if x = c then [] # split c xs
      else (case split c xs of [] \<Rightarrow> [[x]] | w # ws \<Rightarrow> (x # w) # ws))"

text \<open>Truth value of a Python object, as \<open>if x:\<close> tests it.\<close>

fun py_truthy :: "json \<Rightarrow> bool" where
  "py_truthy JNull = False"
| "py_truthy (JBool b) = b"
| "py_truthy (JInt i) = (i \<noteq> 0)"
| "py_truthy (JStr s) = (s \<noteq> [])"
| "py_truthy (JList xs) = (xs \<noteq> [])"
| "py_truthy (JDict kvs) = (kvs \<noteq> [])"

text \<open>
  \<open>a == b\<close>: lists are compared in order, dictionaries key by key whatever the
  insertion order, and a boolean equals the integer \<open>0\<close> or \<open>1\<close>.
\<close>

fun py_eq :: "json \<Rightarrow> json \<Rightarrow> bool"
  and list_eq :: "json list \<Rightarrow> json list \<Rightarrow> bool"
  and dict_sub :: "(string \<times> json) list \<Rightarrow> (string \<times> json) list \<Rightarrow> bool" where
  "py_eq JNull b = (b = JNull)"
| "py_eq (JBool x) b =
     (case b of JBool y \<Rightarrow> x = y | JInt i \<Rightarrow> i = (if x then 1 else 0) | _ \<Rightarrow> False)"
| "py_eq (JInt i) b =
     (case b of JInt j \<Rightarrow> i = j | JBool y \<Rightarrow> i = (if y then 1 else 0) | _ \<Rightarrow> False)"
| "py_eq (JStr s) b = (b = JStr s)"
| "py_eq (JList xs) b = (case b of JList ys \<Rightarrow> list_eq xs ys | _ \<Rightarrow> False)"
| "py_eq (JDict xs) b =
     (case b of JDict ys \<Rightarrow> length xs = length ys \<and> dict_sub xs ys | _ \<Rightarrow> False)"
| "list_eq [] ys = (ys = [])"
| "list_eq (x # xs) ys = (case ys of [] \<Rightarrow> False | y # ys' \<Rightarrow> py_eq x y \<and> list_eq xs ys')"
| "dict_sub [] ys = True"
| "dict_sub (kv # xs) ys =
     ((case map_of ys (fst kv) of None \<Rightarrow> False | Some w \<Rightarrow> py_eq (snd kv) w) \<and> dict_sub xs ys)"

section \<open>The normalizers of \<open>plugins/module_utils/ndi.py\<close>\<close>

text \<open>A flattened result: category key to (epoch key to count), both in insertion order.\<close>

type_synonym buckets = "(string \<times> (string \<times> json) list) list"

text \<open>\<open>result[k1][k2] = v\<close>: the outer lookup raises \<open>KeyError\<close> on a missing key.\<close>

definition setitem2 :: "string \<Rightarrow> string \<Rightarrow> json \<Rightarrow> buckets \<Rightarrow> error + buckets" where
  "setitem2 k1 k2 v result =
     (case map_of result k1 of
        None \<Rightarrow> Inl KeyError
      | Some d \<Rightarrow> Inr (AList.update k1 (AList.update k2 v d) result))"

text \<open>
  The inner loop of \<open>format_event_severity\<close> (lines 67 to 70), on the items still to
  visit.
\<close>

fun event_severity_outputs :: "(string \<Rightarrow> string) \<Rightarrow> string \<Rightarrow> json list \<Rightarrow> buckets \<Rightarrow> error + buckets" where
  "event_severity_outputs str_lower t [] result = Inr result"
| "event_severity_outputs str_lower t (output # rest) result =
     (case py_get output ''bucket'' of Inl e \<Rightarrow> Inl e | Inr b \<Rightarrow>
      (case py_lower str_lower b of Inl e \<Rightarrow> Inl e | Inr epoch \<Rightarrow>
      (case py_get output ''count'' of Inl e \<Rightarrow> Inl e | Inr epoch_count \<Rightarrow>
      (case setitem2 t epoch epoch_count result of Inl e \<Rightarrow> Inl e | Inr result' \<Rightarrow>
      event_severity_outputs str_lower t rest result'))))"

text \<open>The outer loop (lines 64 to 70).\<close>

fun event_severity_loop :: "(string \<Rightarrow> string) \<Rightarrow> json list \<Rightarrow> buckets \<Rightarrow> error + buckets" where
  "event_severity_loop str_lower [] result = Inr result"
| "event_severity_loop str_lower (each # rest) result =
     (case py_get each ''bucket'' of Inl e \<Rightarrow> Inl e | Inr b \<Rightarrow>
      (case py_lower str_lower b of Inl e \<Rightarrow> Inl e | Inr l \<Rightarrow>
      (let event_severity_type = last (split CHR ''_'' l) in
      (case py_get each ''output'' of Inl e \<Rightarrow> Inl e | Inr out \<Rightarrow>
      (case py_iter out of Inl e \<Rightarrow> Inl e | Inr outputs \<Rightarrow>
      (case event_severity_outputs str_lower event_severity_type outputs
             (AList.update event_severity_type [] result) of
        Inl e \<Rightarrow> Inl e
      | Inr result' \<Rightarrow> event_severity_loop str_lower rest result'))))))"

definition format_event_severity :: "(string \<Rightarrow> string) \<Rightarrow> json \<Rightarrow> error + buckets" where
  "format_event_severity str_lower events_severity =
     (case py_iter events_severity of
        Inl e \<Rightarrow> Inl e
      | Inr entries \<Rightarrow> event_severity_loop str_lower entries [])"

text \<open>
  \<open>format_impacted_resource\<close>: the innermost loop (lines 79 to 82), the loop over the
  output items (line 78) and the loop over the entries (line 75).
\<close>

fun impacted_resource_epochs :: "(string \<Rightarrow> string) \<Rightarrow> string \<Rightarrow> json list \<Rightarrow> buckets \<Rightarrow> error + buckets" where
  "impacted_resource_epochs str_lower resource [] result = Inr result"
| "impacted_resource_epochs str_lower resource (epoch # rest) result =
     (case py_get epoch ''bucket'' of Inl e \<Rightarrow> Inl e | Inr b \<Rightarrow>
      (case py_lower str_lower b of Inl e \<Rightarrow> Inl e | Inr epoch_type \<Rightarrow>
      (case py_get epoch ''count'' of Inl e \<Rightarrow> Inl e | Inr count \<Rightarrow>
      (case setitem2 resource epoch_type count result of Inl e \<Rightarrow> Inl e | Inr result' \<Rightarrow>
      impacted_resource_epochs str_lower resource rest result'))))"

fun impacted_resource_outputs :: "(string \<Rightarrow> string) \<Rightarrow> string \<Rightarrow> json list \<Rightarrow> buckets \<Rightarrow> error + buckets" where
  "impacted_resource_outputs str_lower resource [] result = Inr result"
| "impacted_resource_outputs str_lower resource (output # rest) result =
     (case py_get output ''output'' of Inl e \<Rightarrow> Inl e | Inr inner \<Rightarrow>
      (case py_iter inner of Inl e \<Rightarrow> Inl e | Inr epochs \<Rightarrow>
      (case impacted_resource_epochs str_lower resource epochs result of
        Inl e \<Rightarrow> Inl e
      | Inr result' \<Rightarrow> impacted_resource_outputs str_lower resource rest result')))"

fun impacted_resource_loop :: "(string \<Rightarrow> string) \<Rightarrow> json list \<Rightarrow> buckets \<Rightarrow> error + buckets" where
  "impacted_resource_loop str_lower [] result = Inr result"
| "impacted_resource_loop str_lower (each # rest) result =
     (case py_get each ''bucket'' of Inl e \<Rightarrow> Inl e | Inr b \<Rightarrow>
      (case py_lower str_lower b of Inl e \<Rightarrow> Inl e | Inr resource \<Rightarrow>
      (case py_get each ''output'' of Inl e \<Rightarrow> Inl e | Inr out \<Rightarrow>
      (case py_iter out of Inl e \<Rightarrow> Inl e | Inr outputs \<Rightarrow>
      (case impacted_resource_outputs str_lower resource outputs (AList.update resource [] result) of
        Inl e \<Rightarrow> Inl e
      | Inr result' \<Rightarrow> impacted_resource_loop str_lower rest result')))))"

definition format_impacted_resource :: "(string \<Rightarrow> string) \<Rightarrow> json \<Rightarrow> error + buckets" where
  "format_impacted_resource str_lower impacted_resource =
     (case py_iter impacted_resource of
        Inl e \<Rightarrow> Inl e
      | Inr entries \<Rightarrow> impacted_resource_loop str_lower entries [])"

text \<open>\<open>format_messages\<close> (lines 99 to 105).\<close>

fun messages_loop :: "(string \<Rightarrow> string) \<Rightarrow> json list \<Rightarrow> (string \<times> json) list \<Rightarrow> error + (string \<times> json) list" where
  "messages_loop str_lower [] result = Inr result"
| "messages_loop str_lower (message # rest) result =
     (case py_get message ''message'' of Inl e \<Rightarrow> Inl e | Inr msg \<Rightarrow>
      (case py_get message ''severity'' of Inl e \<Rightarrow> Inl e | Inr s \<Rightarrow>
      (case py_lower str_lower s of Inl e \<Rightarrow> Inl e | Inr severity \<Rightarrow>
      messages_loop str_lower rest (AList.update severity msg result))))"

definition format_messages :: "(string \<Rightarrow> string) \<Rightarrow> json \<Rightarrow> error + (string \<times> json) list" where
  "format_messages str_lower messages =
     (case py_iter messages of
        Inl e \<Rightarrow> Inl e
      | Inr entries \<Rightarrow> messages_loop str_lower entries [])"

section \<open>The documented schema and the reading of a flattened result\<close>

text \<open>
  The accessors below read an entry the way the normalizers do on a well-formed entry;
  the predicates state the documented schema of the telemetry responses.
\<close>

definition bucket_of :: "json \<Rightarrow> string" where
  "bucket_of j = (case py_get j ''bucket'' of Inr (JStr s) \<Rightarrow> s | _ \<Rightarrow> [])"

definition count_of :: "json \<Rightarrow> json" where
  "count_of j = (case py_get j ''count'' of Inr v \<Rightarrow> v | _ \<Rightarrow> JNull)"

definition output_of :: "json \<Rightarrow> json list" where
  "output_of j = (case py_get j ''output'' of Inr (JList xs) \<Rightarrow> xs | _ \<Rightarrow> [])"

definition bucket_key :: "(string \<Rightarrow> string) \<Rightarrow> json \<Rightarrow> string" where
  "bucket_key str_lower j = str_lower (bucket_of j)"

definition severity_type :: "(string \<Rightarrow> string) \<Rightarrow> json \<Rightarrow> string" where
  "severity_type str_lower j = last (split CHR ''_'' (str_lower (bucket_of j)))"

definition resource_leaves :: "json \<Rightarrow> json list" where
  "resource_leaves j = concat (map output_of (output_of j))"

fun is_str :: "json \<Rightarrow> bool" where
  "is_str (JStr s) = True"
| "is_str _ = False"

fun is_list_of :: "(json \<Rightarrow> bool) \<Rightarrow> json \<Rightarrow> bool" where
  "is_list_of P (JList xs) = list_all P xs"
| "is_list_of P _ = False"

fun has_field :: "string \<Rightarrow> (json \<Rightarrow> bool) \<Rightarrow> json \<Rightarrow> bool" where
  "has_field k P (JDict kvs) = (case map_of kvs k of None \<Rightarrow> False | Some v \<Rightarrow> P v)"
| "has_field k P _ = False"

definition is_leaf :: "json \<Rightarrow> bool" where
  "is_leaf j = (has_field ''bucket'' is_str j \<and> has_field ''count'' (\<lambda>v. True) j)"

definition is_severity_entry :: "json \<Rightarrow> bool" where
  "is_severity_entry j =
     (has_field ''bucket'' is_str j \<and> has_field ''output'' (is_list_of is_leaf) j)"

definition is_resource_output :: "json \<Rightarrow> bool" where
  "is_resource_output j = has_field ''output'' (is_list_of is_leaf) j"

definition is_resource_entry :: "json \<Rightarrow> bool" where
  "is_resource_entry j =
     (has_field ''bucket'' is_str j \<and> has_field ''output'' (is_list_of is_resource_output) j)"

definition is_message :: "json \<Rightarrow> bool" where
  "is_message j = (has_field ''severity'' is_str j \<and> has_field ''message'' (\<lambda>v. True) j)"

definition leaf_pairs :: "(string \<Rightarrow> string) \<Rightarrow> (json \<Rightarrow> string) \<Rightarrow> (json \<Rightarrow> json list) \<Rightarrow> json list \<Rightarrow> (string \<times> string) set" where
  "leaf_pairs str_lower cat leaves es =
     set (concat (map (\<lambda>e. map (\<lambda>x. (cat e, bucket_key str_lower x)) (leaves e)) es))"

definition result_pairs :: "buckets \<Rightarrow> (string \<times> string) set" where
  "result_pairs r = set (concat (map (\<lambda>kd. map (\<lambda>kv. (fst kd, fst kv)) (snd kd)) r))"

definition epochs_of :: "(string \<Rightarrow> string) \<Rightarrow> json list \<Rightarrow> (string \<times> json) list \<Rightarrow> (string \<times> json) list" where
  "epochs_of str_lower xs d = foldl (\<lambda>d x. AList.update (bucket_key str_lower x) (count_of x) d) d xs"

text \<open>
  The leaves of the input with their keys and counts, in the order of the input, and the
  entries of a flattened result, in its order.
\<close>

definition leaf_counts ::
  "(string \<Rightarrow> string) \<Rightarrow> (json \<Rightarrow> string) \<Rightarrow> (json \<Rightarrow> json list) \<Rightarrow> json list \<Rightarrow>
   (string \<times> string \<times> json) list" where
  "leaf_counts str_lower cat leaves es =
     concat (map (\<lambda>e. map (\<lambda>x. (cat e, bucket_key str_lower x, count_of x)) (leaves e)) es)"

definition result_counts :: "buckets \<Rightarrow> (string \<times> string \<times> json) list" where
  "result_counts r = concat (map (\<lambda>kd. map (\<lambda>kv. (fst kd, fst kv, snd kv)) (snd kd)) r)"

fun lacks_field :: "string \<Rightarrow> json \<Rightarrow> bool" where
  "lacks_field k (JDict kvs) = (map_of kvs k = None)"
| "lacks_field k _ = False"

text \<open>
  The examples lower-case with \<open>str.lower\<close> as it acts on ASCII strings: the letters A to
  Z are folded, every other character of such a string is kept.
\<close>

definition ascii_lower_char :: "char \<Rightarrow> char" where
  "ascii_lower_char c =
     (case map_of (zip ''ABCDEFGHIJKLMNOPQRSTUVWXYZ'' ''abcdefghijklmnopqrstuvwxyz'') c of
        None \<Rightarrow> c
      | Some l \<Rightarrow> l)"

definition ascii_lower :: "string \<Rightarrow> string" where
  "ascii_lower s = map ascii_lower_char s"

text \<open>Example responses.\<close>

definition severity_example :: "json list" where
  "severity_example =
     [JDict [(''bucket'', JStr ''EVENT_SEVERITY_MAJOR''),
             (''output'', JList [JDict [(''bucket'', JStr ''EPOCH1''), (''count'', JInt 3)],
                                 JDict [(''bucket'', JStr ''EPOCH2''), (''count'', JInt 5)]])],
      JDict [(''bucket'', JStr ''EVENT_SEVERITY_INFO''),
             (''output'', JList [JDict [(''bucket'', JStr ''EPOCH1''), (''count'', JInt 0)]])]]"

definition resource_example :: "json list" where
  "resource_example =
     [JDict [(''bucket'', JStr ''Tenant''),
             (''output'', JList
                [JDict [(''bucket'', JStr ''x''),
                        (''output'', JList
                           [JDict [(''bucket'', JStr ''EPOCH1''), (''count'', JInt 2)]])],
                 JDict [(''bucket'', JStr ''y''),
                        (''output'', JList
                           [JDict [(''bucket'', JStr ''EPOCH2''), (''count'', JInt 4)]])]])],
      JDict [(''bucket'', JStr ''EPG''),
             (''output'', JList
                [JDict [(''bucket'', JStr ''z''),
                        (''output'', JList
                           [JDict [(''bucket'', JStr ''EPOCH1''), (''count'', JInt 7)],
                            JDict [(''bucket'', JStr ''EPOCH2''), (''count'', JInt 9)]])]])]]"

text \<open>Two entries with one category key, for each normalizer.\<close>

definition severity_clash :: "json list" where
  "severity_clash =
     [JDict [(''bucket'', JStr ''OLD_MAJOR''),
             (''output'', JList [JDict [(''bucket'', JStr ''EPOCH1''), (''count'', JInt 3)]])],
      JDict [(''bucket'', JStr ''NEW_MAJOR''),
             (''output'', JList [JDict [(''bucket'', JStr ''EPOCH2''), (''count'', JInt 1)]])]]"

definition resource_clash :: "json list" where
  "resource_clash =
     [JDict [(''bucket'', JStr ''Tenant''),
             (''output'', JList
                [JDict [(''bucket'', JStr ''x''),
                        (''output'', JList
                           [JDict [(''bucket'', JStr ''EPOCH1''), (''count'', JInt 2)]])]])],
      JDict [(''bucket'', JStr ''TENANT''),
             (''output'', JList
                [JDict [(''bucket'', JStr ''y''),
                        (''output'', JList
                           [JDict [(''bucket'', JStr ''EPOCH2''), (''count'', JInt 4)]])]])]]"

text \<open>One entry with two leaves of one epoch key, for each normalizer.\<close>

definition severity_merge :: "json list" where
  "severity_merge =
     [JDict [(''bucket'', JStr ''EVENT_SEVERITY_MAJOR''),
             (''output'', JList [JDict [(''bucket'', JStr ''EPOCH1''), (''count'', JInt 3)],
                                 JDict [(''bucket'', JStr ''epoch1''), (''count'', JInt 5)]])]]"

definition resource_merge :: "json list" where
  "resource_merge =
     [JDict [(''bucket'', JStr ''Tenant''),
             (''output'', JList
                [JDict [(''bucket'', JStr ''x''),
                        (''output'', JList
                           [JDict [(''bucket'', JStr ''EPOCH1''), (''count'', JInt 2)]])],
                 JDict [(''bucket'', JStr ''y''),
                        (''output'', JList
                           [JDict [(''bucket'', JStr ''EPOCH1''), (''count'', JInt 4)]])]])]]"

definition severity_key :: "(string \<Rightarrow> string) \<Rightarrow> json \<Rightarrow> string" where
  "severity_key str_lower m = (case py_get m ''severity'' of Inr (JStr s) \<Rightarrow> str_lower s | _ \<Rightarrow> [])"

definition message_text :: "json \<Rightarrow> json" where
  "message_text m = (case py_get m ''message'' of Inr v \<Rightarrow> v | _ \<Rightarrow> JNull)"

definition messages_example :: "json list" where
  "messages_example =
     [JDict [(''severity'', JStr ''INFO''), (''message'', JStr ''a'')],
      JDict [(''severity'', JStr ''Warning''), (''message'', JStr ''b'')],
      JDict [(''severity'', JStr ''info''), (''message'', JStr ''c'')]]"

definition messages_missing :: "json list" where
  "messages_missing =
     [JDict [(''message'', JStr ''a'')],
      JDict [(''severity'', JStr ''INFO''), (''message'', JStr ''b'')]]"

definition severity_missing :: "json list" where
  "severity_missing =
     [JDict [(''output'', JList [])],
      JDict [(''bucket'', JStr ''EVENT_SEVERITY_INFO''),
             (''output'', JList [JDict [(''bucket'', JStr ''EPOCH1''), (''count'', JInt 0)]])]]"

section \<open>The collaborators and the trace of requests\<close>

text \<open>
  The HTTP client (\<open>NDModule\<close> of \<open>plugins/module_utils/nd.py\<close>) is not part of the
  sources at hand. Its answers are parameters of the model, and every call to it is
  recorded in a trace, in the order the calls are made. A call to a lookup that is not
  part of the sources either is one event of the trace: what it does inside is not
  modelled.
\<close>

datatype http_method = GET | POST | PATCH | DELETE

datatype event =
    Query_obj string "(string \<times> json) list"
  | Request string http_method json "string option" string
  | Query_requirements string
  | Get_site_id string string "(string \<times> json) list"

text \<open>A request that changes the service: \<open>nd.request\<close> with POST, PATCH or DELETE.\<close>

fun mutating :: "event \<Rightarrow> bool" where
  "mutating (Request path m payload upload pfx) = (m \<noteq> GET)"
| "mutating _ = False"

text \<open>
  An action returns a value or an exception, and the requests it issued. An exception
  keeps the requests issued before it.
\<close>

type_synonym 'a io = "(error + 'a) \<times> event list"

definition io_bind :: "'a io \<Rightarrow> ('a \<Rightarrow> 'b io) \<Rightarrow> 'b io" where
  "io_bind m f =
     (case m of
        (Inl e, t) \<Rightarrow> (Inl e, t)
      | (Inr x, t) \<Rightarrow> (case f x of (r, t') \<Rightarrow> (r, t @ t')))"

definition io_lift :: "error + 'a \<Rightarrow> 'a io" where
  "io_lift r = (r, [])"

text \<open>\<open>self.nd.query_obj(path, **kwargs)\<close>.\<close>

definition call_query_obj ::
  "(string \<Rightarrow> (string \<times> json) list \<Rightarrow> error + json) \<Rightarrow> string \<Rightarrow> (string \<times> json) list \<Rightarrow> json io" where
  "call_query_obj query_obj path kwargs = (query_obj path kwargs, [Query_obj path kwargs])"

section \<open>The lookups of \<open>plugins/module_utils/ndi.py\<close>\<close>

definition prefix :: string where
  "prefix = ''/sedgeapi/v1/cisco-nir/api/api/telemetry/v2''"

definition config_ig_path :: string where
  "config_ig_path = ''config/insightsGroup''"

definition event_insight_group_path :: "string \<Rightarrow> string \<Rightarrow> string" where
  "event_insight_group_path ig_name site_name =
     ''events/insightsGroup/'' @ ig_name @ ''/fabric/'' @ site_name"

text \<open>
  \<open>str.format\<close> of a value: a string as it is, \<open>None\<close>, \<open>True\<close> and \<open>False\<close> by name;
  the rendering of numbers, lists and dictionaries is a parameter.
\<close>

fun py_str :: "(json \<Rightarrow> string) \<Rightarrow> json \<Rightarrow> string" where
  "py_str repr (JStr s) = s"
| "py_str repr JNull = ''None''"
| "py_str repr (JBool b) = (if b then ''True'' else ''False'')"
| "py_str repr j = repr j"

text \<open>The loop of \<open>get_site_id\<close> (lines 22 to 24); falling off the end returns \<open>None\<close>.\<close>

fun get_site_id_loop :: "string \<Rightarrow> json list \<Rightarrow> error + json" where
  "get_site_id_loop site_name [] = Inr JNull"
| "get_site_id_loop site_name (site # rest) =
     (case py_getitem site ''name'' of Inl e \<Rightarrow> Inl e | Inr n \<Rightarrow>
      (if py_eq n (JStr site_name) then py_getitem site ''uuid''
       else get_site_id_loop site_name rest))"

text \<open>\<open>obj['value']['data']\<close>.\<close>

definition value_data :: "json \<Rightarrow> error + json" where
  "value_data obj =
     (case py_getitem obj ''value'' of Inl e \<Rightarrow> Inl e | Inr v \<Rightarrow> py_getitem v ''data'')"

text \<open>\<open>obj['value']['data'][0]['assuranceEntities']\<close>.\<close>

definition assurance_entities :: "json \<Rightarrow> error + json" where
  "assurance_entities obj =
     (case value_data obj of Inl e \<Rightarrow> Inl e | Inr d \<Rightarrow>
      (case py_getitem0 d of Inl e \<Rightarrow> Inl e | Inr first \<Rightarrow>
       py_getitem first ''assuranceEntities''))"

definition get_site_id ::
  "(string \<Rightarrow> (string \<times> json) list \<Rightarrow> error + json) \<Rightarrow> string \<Rightarrow> (string \<times> json) list \<Rightarrow> json io" where
  "get_site_id query_obj site_name kwargs =
     io_bind (call_query_obj query_obj config_ig_path kwargs) (\<lambda>obj.
       io_lift
         (case assurance_entities obj of Inl e \<Rightarrow> Inl e | Inr entities \<Rightarrow>
          (case py_iter entities of Inl e \<Rightarrow> Inl e | Inr sites \<Rightarrow>
           get_site_id_loop site_name sites)))"

definition get_epochs ::
  "(string \<Rightarrow> (string \<times> json) list \<Rightarrow> error + json) \<Rightarrow> string \<Rightarrow> string \<Rightarrow> json io" where
  "get_epochs query_obj ig_name site_name =
     (let ig_base_path = event_insight_group_path ig_name site_name;
          path = ig_base_path @ ''/epochs?$size=1&$status=FINISHED''
      in io_bind (call_query_obj query_obj path [(''prefix'', JStr prefix)]) (\<lambda>obj.
           io_lift
             (case value_data obj of Inl e \<Rightarrow> Inl e | Inr d \<Rightarrow> py_getitem0 d)))"

definition query_pcvs ::
  "(string \<Rightarrow> (string \<times> json) list \<Rightarrow> error + json) \<Rightarrow> string \<Rightarrow> json io" where
  "query_pcvs query_obj ig_name =
     (let pcvs_path =
            config_ig_path @ ''/'' @ ig_name @ ''/prechangeAnalysis?$sort=-analysisSubmissionTime''
      in io_bind (call_query_obj query_obj pcvs_path [(''prefix'', JStr prefix)]) (\<lambda>obj.
           io_lift (value_data obj)))"

text \<open>
  The loop of \<open>get_pre_change_result\<close> (lines 28 to 33): every job that matches the name
  and the site is queried, and the last one queried is returned.
\<close>

fun get_pre_change_loop ::
  "(string \<Rightarrow> (string \<times> json) list \<Rightarrow> error + json) \<Rightarrow> (json \<Rightarrow> string) \<Rightarrow> string \<Rightarrow> json \<Rightarrow>
   string \<Rightarrow> (string \<times> json) list \<Rightarrow> json list \<Rightarrow> json \<Rightarrow> json io" where
  "get_pre_change_loop query_obj repr pcv_name site_id path kwargs [] pcv_result =
     io_lift (Inr pcv_result)"
| "get_pre_change_loop query_obj repr pcv_name site_id path kwargs (pcv # rest) pcv_result =
     io_bind (io_lift (py_get pcv ''name'')) (\<lambda>n.
       if py_eq n (JStr pcv_name) then
         io_bind (io_lift (py_get pcv ''fabricUuid'')) (\<lambda>fabric.
           if py_eq fabric site_id then
             io_bind (io_lift (py_get pcv ''jobId'')) (\<lambda>pcv_job_id.
             io_bind (call_query_obj query_obj (path @ ''/'' @ py_str repr pcv_job_id) kwargs)
               (\<lambda>obj.
             io_bind (io_lift (value_data obj)) (\<lambda>found.
               get_pre_change_loop query_obj repr pcv_name site_id path kwargs rest found)))
           else get_pre_change_loop query_obj repr pcv_name site_id path kwargs rest pcv_result)
       else get_pre_change_loop query_obj repr pcv_name site_id path kwargs rest pcv_result)"

definition get_pre_change_result ::
  "(string \<Rightarrow> (string \<times> json) list \<Rightarrow> error + json) \<Rightarrow> (json \<Rightarrow> string) \<Rightarrow> json \<Rightarrow> string \<Rightarrow>
   json \<Rightarrow> string \<Rightarrow> (string \<times> json) list \<Rightarrow> json io" where
  "get_pre_change_result query_obj repr pcv_results pcv_name site_id path kwargs =
     io_bind (io_lift (py_iter pcv_results)) (\<lambda>pcvs.
       get_pre_change_loop query_obj repr pcv_name site_id path kwargs pcvs (JDict []))"

definition query_pcv ::
  "(string \<Rightarrow> (string \<times> json) list \<Rightarrow> error + json) \<Rightarrow> (json \<Rightarrow> string) \<Rightarrow> string \<Rightarrow>
   string option \<Rightarrow> string option \<Rightarrow> json io" where
  "query_pcv query_obj repr ig_name site_name pcv_name =
     io_bind (query_pcvs query_obj ig_name) (\<lambda>pcv_results.
       (case pcv_name of
          Some pn \<Rightarrow>
            (case site_name of
               Some sn \<Rightarrow>
                 io_bind (get_site_id query_obj sn [(''prefix'', JStr prefix)]) (\<lambda>site_id.
                   (let pcv_path =
                          config_ig_path @ ''/'' @ ig_name @ ''/fabric/'' @ sn @ ''/prechangeAnalysis''
                    in get_pre_change_result query_obj repr pcv_results pn site_id pcv_path
                         [(''prefix'', JStr prefix)]))
             | None \<Rightarrow>
                 io_lift (Inl (Fail ''site name and prechange validation job name are required'')))
        | None \<Rightarrow>
            io_lift (Inl (Fail ''site name and prechange validation job name are required''))))"


definition is_site :: "json \<Rightarrow> bool" where
  "is_site j = (has_field ''name'' (\<lambda>v. True) j \<and> has_field ''uuid'' (\<lambda>v. True) j)"

definition sites_response :: "json list \<Rightarrow> json" where
  "sites_response entities =
     JDict [(''value'', JDict [(''data'', JList [JDict [(''assuranceEntities'', JList entities)]])])]"

definition sites_example :: "json list" where
  "sites_example =
     [JDict [(''name'', JStr ''siteA''), (''uuid'', JStr ''u-1'')],
      JDict [(''name'', JStr ''siteB''), (''uuid'', JStr ''u-2'')]]"

definition data_response :: "json list \<Rightarrow> json" where
  "data_response records = JDict [(''value'', JDict [(''data'', JList records)])]"

section \<open>The module \<open>nd_compliance_requirement_config_template\<close>\<close>

text \<open>
  The parameters of an invocation, as \<open>nd.params\<close> holds them; a parameter that was not
  given is \<open>None\<close>. The parameter \<open>file\<close> is the field \<open>file_path\<close>.
\<close>

datatype target = Query | Absent | Present

record params =
  insights_group :: string
  name :: "string option"
  description :: "string option"
  enabled :: "bool option"
  sites :: "string list option"
  state :: target
  file_path :: "string option"
  selector_based_on_tags :: bool

text \<open>The two snapshots the module keeps on \<open>nd\<close> and hands to \<open>exit_json\<close>.\<close>

record nd =
  previous :: json
  existing :: json

text \<open>
  What \<open>main\<close> calls and the sources at hand do not hold: the path template and the
  lookups of the newer \<open>NDI\<close> (\<open>requirements_path\<close>, \<open>query_requirements\<close>,
  \<open>set_requirement_details\<close>, and \<open>get_site_id\<close> taking the insights group first),
  \<open>sanitize_dict\<close> and \<open>request\<close> of \<open>nd.py\<close>, \<open>os.path.abspath\<close>, and Python's
  rendering of numbers and containers. They are parameters; \<open>set_requirement_details\<close>
  returns the uuid and leaves the located record in \<open>nd.existing\<close>.
\<close>

record collab =
  requirements_path :: "string \<Rightarrow> string"
  query_requirements :: "string \<Rightarrow> error + json"
  set_requirement_details :: "json list \<Rightarrow> string option \<Rightarrow> nd \<Rightarrow> error + json \<times> nd"
  get_site_id_of_group :: "string \<Rightarrow> string \<Rightarrow> error + json"
  sanitize_dict :: "json \<Rightarrow> string list \<Rightarrow> error + json"
  request :: "string \<Rightarrow> http_method \<Rightarrow> json \<Rightarrow> string option \<Rightarrow> error + json"
  abspath :: "string \<Rightarrow> string"
  py_repr :: "json \<Rightarrow> string"

definition call_query_requirements :: "collab \<Rightarrow> string \<Rightarrow> json io" where
  "call_query_requirements c ig = (query_requirements c ig, [Query_requirements ig])"

definition call_get_site_id :: "collab \<Rightarrow> string \<Rightarrow> string \<Rightarrow> json io" where
  "call_get_site_id c ig site =
     (get_site_id_of_group c ig site, [Get_site_id ig site [(''prefix'', JStr prefix)]])"

definition call_request ::
  "collab \<Rightarrow> string \<Rightarrow> http_method \<Rightarrow> json \<Rightarrow> string option \<Rightarrow> json io" where
  "call_request c path m payload upload =
     (request c path m payload upload, [Request path m payload upload prefix])"

text \<open>
  \<open>required_if\<close> of the argument spec (lines 113 to 116): \<open>AnsibleModule\<close> rejects the
  invocation, naming the parameters that are missing.
\<close>

definition missing_absent :: "params \<Rightarrow> string list" where
  "missing_absent p = (if name p = None then [''name''] else [])"

definition missing_present :: "params \<Rightarrow> string list" where
  "missing_present p =
     (if name p = None then [''name''] else []) @
     (if sites p = None then [''sites''] else []) @
     (if enabled p = None then [''enabled''] else []) @
     (if file_path p = None then [''file''] else [])"

definition required_if :: "params \<Rightarrow> error + unit" where
  "required_if p =
     (if state p = Absent \<and> missing_absent p \<noteq> [] then Inl (MissingRequired (missing_absent p))
      else if state p = Present \<and> missing_present p \<noteq> []
        then Inl (MissingRequired (missing_present p))
      else Inr ())"

definition delete_keys :: "string list" where
  "delete_keys =
     [''complianceRequirementAttachments'', ''uuid'', ''insightsGroupName'', ''isAllTraffic'',
      ''lastEditedDate'', ''removeNonConfigAttributes'', ''uploadedFileSize'',
      ''uploadedFileUploadDate'', ''links'', ''uploadedFileExtension'', ''uploadedFileName'']"

text \<open>The list comprehension of line 146.\<close>

fun template_requirements :: "json list \<Rightarrow> error + json list" where
  "template_requirements [] = Inr []"
| "template_requirements (item # rest) =
     (case py_get item ''configurationType'' of Inl e \<Rightarrow> Inl e | Inr t \<Rightarrow>
      (case template_requirements rest of Inl e \<Rightarrow> Inl e | Inr others \<Rightarrow>
       Inr (if py_eq t (JStr ''TEMPLATE_BASED_CONFIGURATION_COMPLIANCE'')
            then item # others else others)))"

text \<open>Lines 146 to 148: the requirements are fetched and the named one is located.\<close>

definition locate :: "collab \<Rightarrow> params \<Rightarrow> nd \<Rightarrow> (json \<times> nd) io" where
  "locate c p nd0 =
     io_bind (call_query_requirements c (insights_group p)) (\<lambda>fetched.
     io_bind (io_lift (py_iter fetched)) (\<lambda>items.
     io_bind (io_lift (template_requirements items)) (\<lambda>requirements.
       io_lift (set_requirement_details c requirements (name p) nd0))))"

text \<open>\<open>os.path.basename\<close> on a POSIX path, and \<open>s.rsplit(".", 1)\<close> unpacked into two names.\<close>

definition basename :: "string \<Rightarrow> string" where
  "basename path = last (split CHR ''/'' path)"

definition rsplit_dot :: "string \<Rightarrow> error + string \<times> string" where
  "rsplit_dot s =
     (if CHR ''.'' \<in> set s
      then Inr (rev (tl (dropWhile (\<lambda>ch. ch \<noteq> CHR ''.'') (rev s))),
                rev (takeWhile (\<lambda>ch. ch \<noteq> CHR ''.'') (rev s)))
      else Inl ValueError)"

text \<open>\<open>d.update(k=v)\<close>: only dictionaries have the method.\<close>

fun py_update :: "json \<Rightarrow> string \<Rightarrow> json \<Rightarrow> error + json" where
  "py_update (JDict kvs) k v = Inr (JDict (AList.update k v kvs))"
| "py_update _ k v = Inl AttributeError"

text \<open>Lines 160 to 162: the file given must be the file already attached.\<close>

definition attached_file_name :: "collab \<Rightarrow> json \<Rightarrow> error + string" where
  "attached_file_name c record =
     (case py_get record ''uploadedFileName'' of Inl e \<Rightarrow> Inl e | Inr stem \<Rightarrow>
      (case py_get record ''uploadedFileExtension'' of Inl e \<Rightarrow> Inl e | Inr ext \<Rightarrow>
       Inr (py_str (py_repr c) stem @ ''.'' @ py_str (py_repr c) ext)))"

definition mismatch_msg :: "string \<Rightarrow> string \<Rightarrow> string" where
  "mismatch_msg given attached =
     ''File provided '' @ [CHR 0x27] @ given @ [CHR 0x27] @ '' is not matching file '' @
     [CHR 0x27] @ attached @ [CHR 0x27] @ '' of existing requirement''"

definition check_file_name :: "collab \<Rightarrow> json \<Rightarrow> string \<Rightarrow> error + unit" where
  "check_file_name c record f =
     (case attached_file_name c record of Inl e \<Rightarrow> Inl e | Inr filename \<Rightarrow>
      (if filename \<noteq> basename f then Inl (Fail (mismatch_msg (basename f) filename))
       else Inr ()))"

text \<open>The comprehension of line 171: one lookup per site, in order.\<close>

fun associated_sites :: "collab \<Rightarrow> string \<Rightarrow> string list \<Rightarrow> json list io" where
  "associated_sites c ig [] = io_lift (Inr [])"
| "associated_sites c ig (site # rest) =
     io_bind (call_get_site_id c ig site) (\<lambda>uuid.
     io_bind (associated_sites c ig rest) (\<lambda>others.
       io_lift (Inr (JDict [(''enabled'', JBool True), (''uuid'', uuid)] # others))))"

definition str_or_none :: "string option \<Rightarrow> json" where
  "str_or_none v = (case v of None \<Rightarrow> JNull | Some s \<Rightarrow> JStr s)"

definition bool_or_none :: "bool option \<Rightarrow> json" where
  "bool_or_none v = (case v of None \<Rightarrow> JNull | Some b \<Rightarrow> JBool b)"

text \<open>The dictionary of lines 166 to 175.\<close>

definition base_payload :: "params \<Rightarrow> json list \<Rightarrow> (string \<times> json) list" where
  "base_payload p site_entries =
     [(''name'', str_or_none (name p)),
      (''enabled'', bool_or_none (enabled p)),
      (''configurationType'', JStr ''TEMPLATE_BASED_CONFIGURATION_COMPLIANCE''),
      (''requirementType'', JStr ''CONFIGURATION_COMPLIANCE''),
      (''associatedSites'', JList site_entries),
      (''enableEqualityCheck'', JBool False),
      (''uploadFileType'', JStr ''TEMPLATE_BASED_CONFIG''),
      (''enableSelectorBasedOnTags'', JBool (selector_based_on_tags p))]"

text \<open>
  Lines 177 to 180. \<open>if description:\<close> is false for \<open>None\<close> and for the empty string, and
  only then is the located record read.
\<close>

definition with_description ::
  "string option \<Rightarrow> json \<Rightarrow> (string \<times> json) list \<Rightarrow> error + (string \<times> json) list" where
  "with_description descr record payload =
     (if descr \<noteq> None \<and> descr \<noteq> Some []
      then Inr (AList.update ''description'' (str_or_none descr) payload)
      else (case py_get record ''description'' of Inl e \<Rightarrow> Inl e | Inr d \<Rightarrow>
            (if py_truthy d then Inr (AList.update ''description'' (JStr '' '') payload)
             else Inr payload)))"

definition build_payload :: "collab \<Rightarrow> params \<Rightarrow> string list \<Rightarrow> json \<Rightarrow> (string \<times> json) list io" where
  "build_payload c p site_names record =
     io_bind (associated_sites c (insights_group p) site_names) (\<lambda>site_entries.
       io_lift (with_description (description p) record (base_payload p site_entries)))"

text \<open>\<open>sanitize_dict(response.get("value", {}).get("data", {}), delete_keys)\<close> of line 191.\<close>

definition response_data :: "collab \<Rightarrow> json \<Rightarrow> error + json" where
  "response_data c response =
     (case py_get_default response ''value'' (JDict []) of Inl e \<Rightarrow> Inl e | Inr v \<Rightarrow>
      (case py_get_default v ''data'' (JDict []) of Inl e \<Rightarrow> Inl e | Inr d \<Rightarrow>
       sanitize_dict c d delete_keys))"

text \<open>Lines 183 to 191: PATCH of the located requirement, or POST of a new one with its file.\<close>

definition send :: "collab \<Rightarrow> string \<Rightarrow> json \<Rightarrow> string \<Rightarrow> (string \<times> json) list \<Rightarrow> json io" where
  "send c path uuid f payload =
     (if py_truthy uuid
      then io_bind (call_request c (path @ ''/'' @ py_str (py_repr c) uuid) PATCH
                      (JDict (AList.update ''uuid'' uuid payload)) None) (\<lambda>response.
             io_lift (response_data c response))
      else io_bind (call_request c (path @ ''/file'') POST
                      (JDict (AList.update ''uploadedFileName'' (JStr f) payload))
                      (Some (abspath c f))) (\<lambda>response.
             io_lift (response_data c response)))"

text \<open>Lines 195 to 198: the file's name and extension are put on both snapshots.\<close>

definition attach_file :: "string \<Rightarrow> nd \<Rightarrow> error + nd" where
  "attach_file f n =
     (case rsplit_dot (basename f) of Inl e \<Rightarrow> Inl e | Inr (filename, extension) \<Rightarrow>
      (case py_update (previous n) ''uploadedFileExtension'' (JStr extension) of
         Inl e \<Rightarrow> Inl e | Inr p1 \<Rightarrow>
      (case py_update p1 ''uploadedFileName'' (JStr filename) of Inl e \<Rightarrow> Inl e | Inr p2 \<Rightarrow>
      (case py_update (existing n) ''uploadedFileExtension'' (JStr extension) of
         Inl e \<Rightarrow> Inl e | Inr e1 \<Rightarrow>
      (case py_update e1 ''uploadedFileName'' (JStr filename) of Inl e \<Rightarrow> Inl e | Inr e2 \<Rightarrow>
       Inr \<lparr>previous = p2, existing = e2\<rparr>)))))"

text \<open>The branch of lines 150 to 155.\<close>

definition absent_branch :: "collab \<Rightarrow> bool \<Rightarrow> string \<Rightarrow> json \<Rightarrow> nd \<Rightarrow> nd io" where
  "absent_branch c check_mode path uuid nd1 =
     io_bind (io_lift (sanitize_dict c (existing nd1) delete_keys)) (\<lambda>prev.
     io_bind (if \<not> check_mode
              then call_request c path DELETE (JDict [(''ids'', JList [uuid])]) None
              else io_lift (Inr JNull)) (\<lambda>response.
       io_lift (Inr \<lparr>previous = prev, existing = JDict []\<rparr>)))"

text \<open>
  Lines 159 to 193: the state after the reconciliation, before the file's name is put on
  it. \<open>required_if\<close> has made sure that \<open>file\<close> and \<open>sites\<close> are given.
\<close>

definition reconcile_present ::
  "collab \<Rightarrow> params \<Rightarrow> bool \<Rightarrow> string \<Rightarrow> json \<Rightarrow> nd \<Rightarrow> string \<Rightarrow> string list \<Rightarrow> nd io" where
  "reconcile_present c p check_mode path uuid nd1 f site_names =
     io_bind (io_lift (if py_truthy uuid then check_file_name c (existing nd1) f else Inr ()))
       (\<lambda>checked.
     io_bind (io_lift (sanitize_dict c (existing nd1) delete_keys)) (\<lambda>prev.
     io_bind (build_payload c p site_names (existing nd1)) (\<lambda>payload.
     io_bind (if \<not> check_mode \<and> \<not> py_eq (JDict payload) prev
              then send c path uuid f payload
              else io_lift (Inr (JDict payload))) (\<lambda>current.
       io_lift (Inr \<lparr>previous = prev, existing = current\<rparr>)))))"

text \<open>The branch of lines 157 to 198.\<close>

definition present_branch :: "collab \<Rightarrow> params \<Rightarrow> bool \<Rightarrow> string \<Rightarrow> json \<Rightarrow> nd \<Rightarrow> nd io" where
  "present_branch c p check_mode path uuid nd1 =
     (case file_path p of None \<Rightarrow> io_lift (Inl TypeError) | Some f \<Rightarrow>
      (case sites p of None \<Rightarrow> io_lift (Inl TypeError) | Some site_names \<Rightarrow>
       io_bind (reconcile_present c p check_mode path uuid nd1 f site_names) (\<lambda>n.
         io_lift (attach_file f n))))"

text \<open>
  \<open>main\<close>: the result is the state \<open>nd.exit_json()\<close> reports, or the exception that ended
  the invocation, with the requests issued.
\<close>

definition main :: "collab \<Rightarrow> params \<Rightarrow> bool \<Rightarrow> nd \<Rightarrow> nd io" where
  "main c p check_mode nd0 =
     io_bind (io_lift (required_if p)) (\<lambda>validated.
     io_bind (locate c p nd0) (\<lambda>located.
       (let path = requirements_path c (insights_group p);
            uuid = fst located;
            nd1 = snd located
        in if state p = Absent \<and> py_truthy uuid then absent_branch c check_mode path uuid nd1
           else if state p = Present then present_branch c p check_mode path uuid nd1
           else io_lift (Inr nd1))))"


text \<open>
  An example service: it holds the given requirements, locates the first of them, names
  the site \<open>s\<close> \<open>id-s\<close>, and strips the listed keys when it sanitizes.
\<close>

definition stored_requirement :: json where
  "stored_requirement =
     JDict [(''name'', JStr ''req1''), (''uuid'', JStr ''r-1''), (''description'', JStr ''old''),
            (''configurationType'', JStr ''TEMPLATE_BASED_CONFIGURATION_COMPLIANCE''),
            (''uploadedFileName'', JStr ''a''), (''uploadedFileExtension'', JStr ''json'')]"

definition requirement_without_uuid :: json where
  "requirement_without_uuid =
     JDict [(''name'', JStr ''req1''),
            (''configurationType'', JStr ''TEMPLATE_BASED_CONFIGURATION_COMPLIANCE'')]"

definition service :: "json list \<Rightarrow> collab" where
  "service stored =
     \<lparr>requirements_path = (\<lambda>ig. ''config/insightsGroup/'' @ ig @ ''/requirements''),
      query_requirements = (\<lambda>ig. Inr (JList stored)),
      set_requirement_details =
        (\<lambda>requirements wanted state0.
           Inr (case requirements of
                  [] \<Rightarrow> (JNull, state0\<lparr>existing := JDict []\<rparr>)
                | r # rest \<Rightarrow>
                    (case py_get r ''uuid'' of Inl e \<Rightarrow> JNull | Inr u \<Rightarrow> u,
                     state0\<lparr>existing := r\<rparr>))),
      get_site_id_of_group = (\<lambda>ig site. Inr (JStr (''id-'' @ site))),
      sanitize_dict =
        (\<lambda>j keys. Inr (case j of
                          JDict kvs \<Rightarrow> JDict (filter (\<lambda>kv. fst kv \<notin> set keys) kvs)
                        | JNull \<Rightarrow> JNull | JBool b \<Rightarrow> JBool b | JInt i \<Rightarrow> JInt i
                        | JStr t \<Rightarrow> JStr t | JList xs \<Rightarrow> JList xs)),
      request = (\<lambda>path m payload upload. Inr (JDict [])),
      abspath = (\<lambda>f. ''/cwd/'' @ f),
      py_repr = (\<lambda>j. [])\<rparr>"

definition desired :: "target \<Rightarrow> string option \<Rightarrow> string \<Rightarrow> params" where
  "desired t descr f =
     \<lparr>insights_group = ''ig'', name = Some ''req1'', description = descr, enabled = Some True,
      sites = Some [''siteA''], state = t, file_path = Some f, selector_based_on_tags = False\<rparr>"

definition fresh :: nd where
  "fresh = \<lparr>previous = JDict [], existing = JDict []\<rparr>"

text \<open>No request of an action's trace changes the service.\<close>

definition quiet :: "'a io \<Rightarrow> bool" where
  "quiet m = list_all (\<lambda>ev. \<not> mutating ev) (snd m)"

section \<open>Proofs\<close>

lemma fold_update_distinct:
  "distinct (map fst r) \<Longrightarrow> distinct (map fst (foldl (\<lambda>r x. AList.update (kf x) (vf x) r) r xs))"
  by (induction xs arbitrary: r) (simp_all add: distinct_update)

lemma fold_update_keys:
  "fst ` set (foldl (\<lambda>r x. AList.update (kf x) (vf x) r) r xs) = fst ` set r \<union> kf ` set xs"
  by (induction xs arbitrary: r) (auto simp: dom_update)

lemma fold_update_lookup:
  "map_of (foldl (\<lambda>r x. AList.update (kf x) (vf x) r) r xs) k =
     (case filter (\<lambda>x. kf x = k) xs of [] \<Rightarrow> map_of r k | ys \<Rightarrow> Some (vf (last ys)))"
proof (induction xs arbitrary: r)
  case Nil
  then show ?case by simp
next
  case (Cons x xs)
  show ?case
    by (simp add: Cons.IH update_conv' split: list.splits)
qed

lemma has_fieldD:
  "has_field k P j \<Longrightarrow> \<exists>kvs v. j = JDict kvs \<and> map_of kvs k = Some v \<and> P v"
  by (cases j) (auto split: option.splits)

lemma is_strD: "is_str v \<Longrightarrow> \<exists>s. v = JStr s"
  by (cases v) auto

lemma is_list_ofD: "is_list_of P v \<Longrightarrow> \<exists>xs. v = JList xs \<and> list_all P xs"
  by (cases v) auto

lemma str_fieldD:
  "has_field k is_str j \<Longrightarrow> \<exists>kvs s. j = JDict kvs \<and> map_of kvs k = Some (JStr s)"
  by (blast dest: has_fieldD is_strD)

lemma list_fieldD:
  "has_field k (is_list_of P) j \<Longrightarrow>
   \<exists>kvs xs. j = JDict kvs \<and> map_of kvs k = Some (JList xs) \<and> list_all P xs"
  by (blast dest: has_fieldD is_list_ofD)

lemma leaf_step:
  assumes "is_leaf x" "map_of r t = Some d"
  shows "event_severity_outputs str_lower t (x # rest) r =
           event_severity_outputs str_lower t rest (AList.update t (AList.update (bucket_key str_lower x) (count_of x) d) r)"
proof -
  from assms(1) obtain kvs s where x: "x = JDict kvs" and b: "map_of kvs ''bucket'' = Some (JStr s)"
    unfolding is_leaf_def by (blast dest: str_fieldD)
  show ?thesis
    using assms(2)
    by (simp add: x b bucket_key_def bucket_of_def count_of_def setitem2_def split: option.splits)
qed

lemma event_severity_outputs_fold:
  "list_all is_leaf xs \<Longrightarrow> map_of r t = Some d \<Longrightarrow>
   event_severity_outputs str_lower t xs r = Inr (AList.update t (epochs_of str_lower xs d) r)"
proof (induction xs arbitrary: r d)
  case Nil
  then show ?case by (simp add: epochs_of_def update_triv)
next
  case (Cons x xs)
  from Cons.prems have x: "is_leaf x" and xs: "list_all is_leaf xs" by simp_all
  let ?d = "AList.update (bucket_key str_lower x) (count_of x) d"
  have "event_severity_outputs str_lower t (x # xs) r = event_severity_outputs str_lower t xs (AList.update t ?d r)"
    using x Cons.prems(2) by (rule leaf_step)
  also have "\<dots> = Inr (AList.update t (epochs_of str_lower xs ?d) (AList.update t ?d r))"
    by (rule Cons.IH [OF xs]) (simp add: update_conv')
  finally show ?case by (simp add: epochs_of_def)
qed

lemma impacted_resource_epochs_eq:
  "impacted_resource_epochs str_lower t xs r = event_severity_outputs str_lower t xs r"
  by (induction xs arbitrary: r) (simp_all split: sum.splits)

lemma severity_entry_step:
  assumes "is_severity_entry e"
  shows "event_severity_loop str_lower (e # rest) r =
           event_severity_loop str_lower rest (AList.update (severity_type str_lower e) (epochs_of str_lower (output_of e) []) r)"
proof -
  from assms have hb: "has_field ''bucket'' is_str e"
    and ho: "has_field ''output'' (is_list_of is_leaf) e"
    by (simp_all add: is_severity_entry_def)
  from str_fieldD [OF hb] obtain kvs s where e: "e = JDict kvs"
    and b: "map_of kvs ''bucket'' = Some (JStr s)" by blast
  from list_fieldD [OF ho] e obtain xs where out: "map_of kvs ''output'' = Some (JList xs)"
    and xs: "list_all is_leaf xs" by auto
  have t: "severity_type str_lower e = last (split CHR ''_'' (str_lower s))"
    by (simp add: severity_type_def bucket_of_def e b)
  have o: "output_of e = xs" by (simp add: output_of_def e out)
  let ?t = "last (split CHR ''_'' (str_lower s))"
  have run: "event_severity_outputs str_lower ?t xs (AList.update ?t [] r) =
          Inr (AList.update ?t (epochs_of str_lower xs []) (AList.update ?t [] r))"
    by (rule event_severity_outputs_fold [OF xs]) (simp add: update_conv')
  show ?thesis
    unfolding t o by (simp add: e b out run)
qed

lemma event_severity_loop_fold:
  "list_all is_severity_entry es \<Longrightarrow>
   event_severity_loop str_lower es r =
     Inr (foldl (\<lambda>r e. AList.update (severity_type str_lower e) (epochs_of str_lower (output_of e) []) r) r es)"
proof (induction es arbitrary: r)
  case Nil
  then show ?case by simp
next
  case (Cons e es)
  then show ?case by (simp add: severity_entry_step del: event_severity_loop.simps)
qed

lemma resource_output_step:
  assumes "is_resource_output x" "map_of r t = Some d"
  shows "impacted_resource_outputs str_lower t (x # rest) r =
           impacted_resource_outputs str_lower t rest (AList.update t (epochs_of str_lower (output_of x) d) r)"
proof -
  from assms(1) obtain kvs xs where x: "x = JDict kvs"
    and out: "map_of kvs ''output'' = Some (JList xs)" and xs: "list_all is_leaf xs"
    unfolding is_resource_output_def by (blast dest: list_fieldD)
  have o: "output_of x = xs" by (simp add: output_of_def x out)
  have "event_severity_outputs str_lower t xs r = Inr (AList.update t (epochs_of str_lower xs d) r)"
    using xs assms(2) by (rule event_severity_outputs_fold)
  then show ?thesis
    unfolding o by (simp add: x out impacted_resource_epochs_eq)
qed

lemma epochs_of_append: "epochs_of str_lower (xs @ ys) d = epochs_of str_lower ys (epochs_of str_lower xs d)"
  by (simp add: epochs_of_def)

lemma impacted_resource_outputs_fold:
  "list_all is_resource_output xs \<Longrightarrow> map_of r t = Some d \<Longrightarrow>
   impacted_resource_outputs str_lower t xs r =
     Inr (AList.update t (epochs_of str_lower (concat (map output_of xs)) d) r)"
proof (induction xs arbitrary: r d)
  case Nil
  then show ?case by (simp add: epochs_of_def update_triv)
next
  case (Cons x xs)
  from Cons.prems have x: "is_resource_output x" and xs: "list_all is_resource_output xs"
    by simp_all
  let ?d = "epochs_of str_lower (output_of x) d"
  have "impacted_resource_outputs str_lower t (x # xs) r =
          impacted_resource_outputs str_lower t xs (AList.update t ?d r)"
    using x Cons.prems(2) by (rule resource_output_step)
  also have "\<dots> = Inr (AList.update t (epochs_of str_lower (concat (map output_of xs)) ?d)
                        (AList.update t ?d r))"
    by (rule Cons.IH [OF xs]) (simp add: update_conv')
  finally show ?case by (simp add: epochs_of_append)
qed

lemma resource_entry_step:
  assumes "is_resource_entry e"
  shows "impacted_resource_loop str_lower (e # rest) r =
           impacted_resource_loop str_lower rest (AList.update (bucket_key str_lower e) (epochs_of str_lower (resource_leaves e) []) r)"
proof -
  from assms have hb: "has_field ''bucket'' is_str e"
    and ho: "has_field ''output'' (is_list_of is_resource_output) e"
    by (simp_all add: is_resource_entry_def)
  from str_fieldD [OF hb] obtain kvs s where e: "e = JDict kvs"
    and b: "map_of kvs ''bucket'' = Some (JStr s)" by blast
  from list_fieldD [OF ho] e obtain xs where out: "map_of kvs ''output'' = Some (JList xs)"
    and xs: "list_all is_resource_output xs" by auto
  have t: "bucket_key str_lower e = str_lower s"
    by (simp add: bucket_key_def bucket_of_def e b)
  have o: "resource_leaves e = concat (map output_of xs)"
    by (simp add: resource_leaves_def output_of_def e out)
  have run: "impacted_resource_outputs str_lower (str_lower s) xs (AList.update (str_lower s) [] r) =
          Inr (AList.update (str_lower s) (epochs_of str_lower (concat (map output_of xs)) [])
                 (AList.update (str_lower s) [] r))"
    by (rule impacted_resource_outputs_fold [OF xs]) (simp add: update_conv')
  show ?thesis
    unfolding t o by (simp add: e b out run)
qed

lemma impacted_resource_loop_fold:
  "list_all is_resource_entry es \<Longrightarrow>
   impacted_resource_loop str_lower es r =
     Inr (foldl (\<lambda>r e. AList.update (bucket_key str_lower e) (epochs_of str_lower (resource_leaves e) []) r) r es)"
proof (induction es arbitrary: r)
  case Nil
  then show ?case by simp
next
  case (Cons e es)
  then show ?case by (simp add: resource_entry_step del: impacted_resource_loop.simps)
qed

lemma update_fresh: "k \<notin> fst ` set al \<Longrightarrow> AList.update k v al = al @ [(k, v)]"
  by (induction al) auto

lemma fold_update_fresh:
  "distinct (map kf xs) \<Longrightarrow>
   foldl (\<lambda>r x. AList.update (kf x) (vf x) r) [] xs = map (\<lambda>x. (kf x, vf x)) xs"
proof (induction xs rule: rev_induct)
  case Nil
  then show ?case by simp
next
  case (snoc x xs)
  then have "kf x \<notin> fst ` set (map (\<lambda>x. (kf x, vf x)) xs)"
    by (auto simp: image_iff)
  with snoc show ?case by (simp add: update_fresh)
qed

lemma epochs_of_fresh:
  "distinct (map (bucket_key str_lower) xs) \<Longrightarrow>
   epochs_of str_lower xs [] = map (\<lambda>x. (bucket_key str_lower x, count_of x)) xs"
  unfolding epochs_of_def by (rule fold_update_fresh)

lemma counts_of_entries:
  "list_all (\<lambda>e. distinct (map (bucket_key str_lower) (leaves e))) es \<Longrightarrow>
   result_counts (map (\<lambda>e. (cat e, epochs_of str_lower (leaves e) [])) es) =
     leaf_counts str_lower cat leaves es"
proof (induction es)
  case Nil
  then show ?case by (simp add: result_counts_def leaf_counts_def)
next
  case (Cons e es)
  from Cons.prems have d: "distinct (map (bucket_key str_lower) (leaves e))"
    and rest: "list_all (\<lambda>e. distinct (map (bucket_key str_lower) (leaves e))) es"
    by simp_all
  have "result_counts (map (\<lambda>e. (cat e, epochs_of str_lower (leaves e) [])) (e # es)) =
          map (\<lambda>kv. (cat e, fst kv, snd kv)) (epochs_of str_lower (leaves e) []) @
          result_counts (map (\<lambda>e. (cat e, epochs_of str_lower (leaves e) [])) es)"
    by (simp add: result_counts_def)
  also have "map (\<lambda>kv. (cat e, fst kv, snd kv)) (epochs_of str_lower (leaves e) []) =
          map (\<lambda>x. (cat e, bucket_key str_lower x, count_of x)) (leaves e)"
    by (simp add: epochs_of_fresh [OF d])
  also have "result_counts (map (\<lambda>e. (cat e, epochs_of str_lower (leaves e) [])) es) =
          leaf_counts str_lower cat leaves es"
    by (rule Cons.IH [OF rest])
  finally show ?case by (simp add: leaf_counts_def)
qed

lemma pairs_of_counts:
  "result_counts r = leaf_counts str_lower cat leaves es \<Longrightarrow>
   result_pairs r = leaf_pairs str_lower cat leaves es"
proof -
  assume eq: "result_counts r = leaf_counts str_lower cat leaves es"
  have "result_pairs r = set (map (\<lambda>t. (fst t, fst (snd t))) (result_counts r))"
    by (simp add: result_pairs_def result_counts_def map_concat comp_def)
  also have "\<dots> = set (map (\<lambda>t. (fst t, fst (snd t))) (leaf_counts str_lower cat leaves es))"
    by (simp only: eq)
  also have "\<dots> = leaf_pairs str_lower cat leaves es"
    by (simp add: leaf_pairs_def leaf_counts_def map_concat comp_def)
  finally show ?thesis .
qed

lemma format_event_severity_entries:
  assumes "list_all is_severity_entry es" "distinct (map (severity_type str_lower) es)"
  shows "format_event_severity str_lower (JList es) =
           Inr (map (\<lambda>e. (severity_type str_lower e, epochs_of str_lower (output_of e) [])) es)"
  using assms
  by (simp add: format_event_severity_def event_severity_loop_fold fold_update_fresh)

lemma format_impacted_resource_entries:
  assumes "list_all is_resource_entry es" "distinct (map (bucket_key str_lower) es)"
  shows "format_impacted_resource str_lower (JList es) =
           Inr (map (\<lambda>e. (bucket_key str_lower e, epochs_of str_lower (resource_leaves e) [])) es)"
  using assms
  by (simp add: format_impacted_resource_def impacted_resource_loop_fold fold_update_fresh)

text \<open>
  Claim C1, as amended. For every well-formed input list in which the entries have
  pairwise distinct category keys and the leaves of each entry have pairwise distinct epoch
  keys, \<open>format_event_severity\<close> and \<open>format_impacted_resource\<close> drop and merge no leaf:
  the (category key, epoch key) pairs of the returned mapping are exactly the leaf bucket
  pairs of the input, and the entries of the mapping, with their counts, are exactly the
  leaves of the input, one for one and in order. The keys are what \<open>str.lower\<close> makes of
  the buckets, whatever it does to them.
\<close>

theorem flatten_keeps_leaves:
  "(list_all is_severity_entry es \<and> distinct (map (severity_type str_lower) es) \<and>
    list_all (\<lambda>e. distinct (map (bucket_key str_lower) (output_of e))) es \<longrightarrow>
      (\<exists>r. format_event_severity str_lower (JList es) = Inr r \<and>
           result_pairs r = leaf_pairs str_lower (severity_type str_lower) output_of es \<and>
           result_counts r = leaf_counts str_lower (severity_type str_lower) output_of es)) \<and>
   (list_all is_resource_entry es \<and> distinct (map (bucket_key str_lower) es) \<and>
    list_all (\<lambda>e. distinct (map (bucket_key str_lower) (resource_leaves e))) es \<longrightarrow>
      (\<exists>r. format_impacted_resource str_lower (JList es) = Inr r \<and>
           result_pairs r = leaf_pairs str_lower (bucket_key str_lower) resource_leaves es \<and>
           result_counts r = leaf_counts str_lower (bucket_key str_lower) resource_leaves es))"
proof (intro conjI impI)
  assume a: "list_all is_severity_entry es \<and> distinct (map (severity_type str_lower) es) \<and>
    list_all (\<lambda>e. distinct (map (bucket_key str_lower) (output_of e))) es"
  let ?r = "map (\<lambda>e. (severity_type str_lower e, epochs_of str_lower (output_of e) [])) es"
  have run: "format_event_severity str_lower (JList es) = Inr ?r"
    using a format_event_severity_entries [of es str_lower] by simp
  have c: "result_counts ?r = leaf_counts str_lower (severity_type str_lower) output_of es"
    using a by (intro counts_of_entries) simp
  have p: "result_pairs ?r = leaf_pairs str_lower (severity_type str_lower) output_of es"
    using c by (rule pairs_of_counts)
  show "\<exists>r. format_event_severity str_lower (JList es) = Inr r \<and>
           result_pairs r = leaf_pairs str_lower (severity_type str_lower) output_of es \<and>
           result_counts r = leaf_counts str_lower (severity_type str_lower) output_of es"
    by (rule exI [of _ ?r], intro conjI) (rule run p c)+
next
  assume a: "list_all is_resource_entry es \<and> distinct (map (bucket_key str_lower) es) \<and>
    list_all (\<lambda>e. distinct (map (bucket_key str_lower) (resource_leaves e))) es"
  let ?r = "map (\<lambda>e. (bucket_key str_lower e, epochs_of str_lower (resource_leaves e) [])) es"
  have run: "format_impacted_resource str_lower (JList es) = Inr ?r"
    using a format_impacted_resource_entries [of es str_lower] by simp
  have c: "result_counts ?r = leaf_counts str_lower (bucket_key str_lower) resource_leaves es"
    using a by (intro counts_of_entries) simp
  have p: "result_pairs ?r = leaf_pairs str_lower (bucket_key str_lower) resource_leaves es"
    using c by (rule pairs_of_counts)
  show "\<exists>r. format_impacted_resource str_lower (JList es) = Inr r \<and>
           result_pairs r = leaf_pairs str_lower (bucket_key str_lower) resource_leaves es \<and>
           result_counts r = leaf_counts str_lower (bucket_key str_lower) resource_leaves es"
    by (rule exI [of _ ?r], intro conjI) (rule run p c)+
qed

lemma ascii_lower_simps:
  "ascii_lower [] = []"
  "ascii_lower (c # cs) = ascii_lower_char c # ascii_lower cs"
  by (simp_all add: ascii_lower_def)

lemmas key_defs =
  severity_type_def bucket_key_def bucket_of_def output_of_def resource_leaves_def count_of_def
  ascii_lower_simps ascii_lower_char_def

theorem flatten_keeps_leaves_witness:
  "list_all is_severity_entry severity_example \<and>
   distinct (map (severity_type ascii_lower) severity_example) \<and>
   list_all (\<lambda>e. distinct (map (bucket_key ascii_lower) (output_of e))) severity_example \<and>
   (\<exists>r. format_event_severity ascii_lower (JList severity_example) = Inr r \<and>
        result_counts r =
          [(''major'', ''epoch1'', JInt 3), (''major'', ''epoch2'', JInt 5),
           (''info'', ''epoch1'', JInt 0)]) \<and>
   list_all is_resource_entry resource_example \<and>
   distinct (map (bucket_key ascii_lower) resource_example) \<and>
   list_all (\<lambda>e. distinct (map (bucket_key ascii_lower) (resource_leaves e))) resource_example \<and>
   (\<exists>r. format_impacted_resource ascii_lower (JList resource_example) = Inr r \<and>
        result_counts r =
          [(''tenant'', ''epoch1'', JInt 2), (''tenant'', ''epoch2'', JInt 4),
           (''epg'', ''epoch1'', JInt 7), (''epg'', ''epoch2'', JInt 9)])"
proof -
  have w1: "list_all is_severity_entry severity_example"
    by (simp add: severity_example_def is_severity_entry_def is_leaf_def)
  have d1: "distinct (map (severity_type ascii_lower) severity_example)"
    by (simp add: severity_example_def key_defs)
  have i1: "list_all (\<lambda>e. distinct (map (bucket_key ascii_lower) (output_of e)))
      severity_example"
    by (simp add: severity_example_def key_defs)
  have c1: "leaf_counts ascii_lower (severity_type ascii_lower) output_of severity_example =
      [(''major'', ''epoch1'', JInt 3), (''major'', ''epoch2'', JInt 5),
       (''info'', ''epoch1'', JInt 0)]"
    by (simp add: leaf_counts_def severity_example_def key_defs)
  have w2: "list_all is_resource_entry resource_example"
    by (simp add: resource_example_def is_resource_entry_def is_resource_output_def is_leaf_def)
  have d2: "distinct (map (bucket_key ascii_lower) resource_example)"
    by (simp add: resource_example_def key_defs)
  have i2: "list_all (\<lambda>e. distinct (map (bucket_key ascii_lower) (resource_leaves e)))
      resource_example"
    by (simp add: resource_example_def key_defs)
  have c2: "leaf_counts ascii_lower (bucket_key ascii_lower) resource_leaves resource_example =
      [(''tenant'', ''epoch1'', JInt 2), (''tenant'', ''epoch2'', JInt 4),
       (''epg'', ''epoch1'', JInt 7), (''epg'', ''epoch2'', JInt 9)]"
    by (simp add: leaf_counts_def resource_example_def key_defs)
  have "list_all is_severity_entry severity_example \<and>
        distinct (map (severity_type ascii_lower) severity_example) \<and>
        list_all (\<lambda>e. distinct (map (bucket_key ascii_lower) (output_of e))) severity_example"
    using w1 d1 i1 by (intro conjI)
  with flatten_keeps_leaves [of severity_example ascii_lower]
  obtain r1 where "format_event_severity ascii_lower (JList severity_example) = Inr r1"
    and "result_counts r1 =
           leaf_counts ascii_lower (severity_type ascii_lower) output_of severity_example"
    by blast
  then have e1: "\<exists>r. format_event_severity ascii_lower (JList severity_example) = Inr r \<and>
      result_counts r =
        [(''major'', ''epoch1'', JInt 3), (''major'', ''epoch2'', JInt 5),
         (''info'', ''epoch1'', JInt 0)]"
    unfolding c1 by blast
  have "list_all is_resource_entry resource_example \<and>
        distinct (map (bucket_key ascii_lower) resource_example) \<and>
        list_all (\<lambda>e. distinct (map (bucket_key ascii_lower) (resource_leaves e)))
          resource_example"
    using w2 d2 i2 by (intro conjI)
  with flatten_keeps_leaves [of resource_example ascii_lower]
  obtain r2 where "format_impacted_resource ascii_lower (JList resource_example) = Inr r2"
    and "result_counts r2 =
           leaf_counts ascii_lower (bucket_key ascii_lower) resource_leaves resource_example"
    by blast
  then have e2: "\<exists>r. format_impacted_resource ascii_lower (JList resource_example) = Inr r \<and>
      result_counts r =
        [(''tenant'', ''epoch1'', JInt 2), (''tenant'', ''epoch2'', JInt 4),
         (''epg'', ''epoch1'', JInt 7), (''epg'', ''epoch2'', JInt 9)]"
    unfolding c2 by blast
  from w1 d1 i1 e1 w2 d2 i2 e2 show ?thesis by (intro conjI)
qed

text \<open>
  Claim C1 as stated fails, for each normalizer in two ways. Two entries with one category
  key: the second entry resets the inner mapping (lines 66 and 77) and the leaf of the
  first entry is gone. Two leaves of one entry with one epoch key: the later count
  overwrites the earlier one (lines 70 and 82), and two leaves have become one entry.
\<close>

theorem flatten_drops_leaf_counterexample:
  "list_all is_severity_entry severity_clash \<and>
   format_event_severity ascii_lower (JList severity_clash) =
     Inr [(''major'', [(''epoch2'', JInt 1)])] \<and>
   (''major'', ''epoch1'') \<in>
     leaf_pairs ascii_lower (severity_type ascii_lower) output_of severity_clash \<and>
   (''major'', ''epoch1'') \<notin> result_pairs [(''major'', [(''epoch2'', JInt 1)])] \<and>
   list_all is_resource_entry resource_clash \<and>
   format_impacted_resource ascii_lower (JList resource_clash) =
     Inr [(''tenant'', [(''epoch2'', JInt 4)])] \<and>
   (''tenant'', ''epoch1'') \<in>
     leaf_pairs ascii_lower (bucket_key ascii_lower) resource_leaves resource_clash \<and>
   (''tenant'', ''epoch1'') \<notin> result_pairs [(''tenant'', [(''epoch2'', JInt 4)])] \<and>
   list_all is_severity_entry severity_merge \<and>
   format_event_severity ascii_lower (JList severity_merge) =
     Inr [(''major'', [(''epoch1'', JInt 5)])] \<and>
   leaf_counts ascii_lower (severity_type ascii_lower) output_of severity_merge =
     [(''major'', ''epoch1'', JInt 3), (''major'', ''epoch1'', JInt 5)] \<and>
   result_counts [(''major'', [(''epoch1'', JInt 5)])] = [(''major'', ''epoch1'', JInt 5)] \<and>
   list_all is_resource_entry resource_merge \<and>
   format_impacted_resource ascii_lower (JList resource_merge) =
     Inr [(''tenant'', [(''epoch1'', JInt 4)])] \<and>
   leaf_counts ascii_lower (bucket_key ascii_lower) resource_leaves resource_merge =
     [(''tenant'', ''epoch1'', JInt 2), (''tenant'', ''epoch1'', JInt 4)] \<and>
   result_counts [(''tenant'', [(''epoch1'', JInt 4)])] = [(''tenant'', ''epoch1'', JInt 4)]"
proof -
  have s1: "list_all is_severity_entry severity_clash"
    by (simp add: severity_clash_def is_severity_entry_def is_leaf_def)
  have s2: "format_event_severity ascii_lower (JList severity_clash) =
      Inr [(''major'', [(''epoch2'', JInt 1)])]"
    by (simp add: severity_clash_def format_event_severity_def setitem2_def key_defs)
  have s3: "(''major'', ''epoch1'') \<in>
      leaf_pairs ascii_lower (severity_type ascii_lower) output_of severity_clash"
    by (simp add: severity_clash_def leaf_pairs_def key_defs)
  have s4: "(''major'', ''epoch1'') \<notin> result_pairs [(''major'', [(''epoch2'', JInt 1)])]"
    by (simp add: result_pairs_def)
  have r1: "list_all is_resource_entry resource_clash"
    by (simp add: resource_clash_def is_resource_entry_def is_resource_output_def is_leaf_def)
  have r2: "format_impacted_resource ascii_lower (JList resource_clash) =
      Inr [(''tenant'', [(''epoch2'', JInt 4)])]"
    by (simp add: resource_clash_def format_impacted_resource_def setitem2_def key_defs)
  have r3: "(''tenant'', ''epoch1'') \<in>
      leaf_pairs ascii_lower (bucket_key ascii_lower) resource_leaves resource_clash"
    by (simp add: resource_clash_def leaf_pairs_def key_defs)
  have r4: "(''tenant'', ''epoch1'') \<notin> result_pairs [(''tenant'', [(''epoch2'', JInt 4)])]"
    by (simp add: result_pairs_def)
  have m1: "list_all is_severity_entry severity_merge"
    by (simp add: severity_merge_def is_severity_entry_def is_leaf_def)
  have m2: "format_event_severity ascii_lower (JList severity_merge) =
      Inr [(''major'', [(''epoch1'', JInt 5)])]"
    by (simp add: severity_merge_def format_event_severity_def setitem2_def key_defs)
  have m3: "leaf_counts ascii_lower (severity_type ascii_lower) output_of severity_merge =
      [(''major'', ''epoch1'', JInt 3), (''major'', ''epoch1'', JInt 5)]"
    by (simp add: severity_merge_def leaf_counts_def key_defs)
  have m4: "result_counts [(''major'', [(''epoch1'', JInt 5)])] =
      [(''major'', ''epoch1'', JInt 5)]"
    by (simp add: result_counts_def)
  have n1: "list_all is_resource_entry resource_merge"
    by (simp add: resource_merge_def is_resource_entry_def is_resource_output_def is_leaf_def)
  have n2: "format_impacted_resource ascii_lower (JList resource_merge) =
      Inr [(''tenant'', [(''epoch1'', JInt 4)])]"
    by (simp add: resource_merge_def format_impacted_resource_def setitem2_def key_defs)
  have n3: "leaf_counts ascii_lower (bucket_key ascii_lower) resource_leaves resource_merge =
      [(''tenant'', ''epoch1'', JInt 2), (''tenant'', ''epoch1'', JInt 4)]"
    by (simp add: resource_merge_def leaf_counts_def key_defs)
  have n4: "result_counts [(''tenant'', [(''epoch1'', JInt 4)])] =
      [(''tenant'', ''epoch1'', JInt 4)]"
    by (simp add: result_counts_def)
  from s1 s2 s3 s4 r1 r2 r3 r4 m1 m2 m3 m4 n1 n2 n3 n4 show ?thesis by (intro conjI)
qed

lemma messages_loop_step:
  assumes "is_message m"
  shows "messages_loop str_lower (m # rest) r =
           messages_loop str_lower rest (AList.update (severity_key str_lower m) (message_text m) r)"
proof -
  from assms have hs: "has_field ''severity'' is_str m"
    and hm: "has_field ''message'' (\<lambda>v. True) m"
    by (simp_all add: is_message_def)
  from str_fieldD [OF hs] obtain kvs s where m: "m = JDict kvs"
    and s: "map_of kvs ''severity'' = Some (JStr s)" by blast
  show ?thesis
    by (simp add: m s severity_key_def message_text_def split: option.splits)
qed

lemma messages_loop_fold:
  "list_all is_message ms \<Longrightarrow>
   messages_loop str_lower ms r =
     Inr (foldl (\<lambda>r m. AList.update (severity_key str_lower m) (message_text m) r) r ms)"
proof (induction ms arbitrary: r)
  case Nil
  then show ?case by simp
next
  case (Cons m ms)
  then show ?case by (simp add: messages_loop_step del: messages_loop.simps)
qed

text \<open>
  Claim C6. For every list of messages, each with a string severity and a message,
  \<open>format_messages\<close> returns a mapping with exactly one entry per distinct lower-cased
  severity (the keys are distinct and are exactly the lower-cased severities of the
  input), and the entry of a severity is the message of the last input message bearing
  it. The lower-cased severity is what \<open>str.lower\<close> returns, whatever it does to a
  string.
\<close>

theorem format_messages_last_wins:
  assumes "list_all is_message ms"
  shows "\<exists>r. format_messages str_lower (JList ms) = Inr r \<and> distinct (map fst r) \<and>
           set (map fst r) = (severity_key str_lower) ` set ms \<and>
           (\<forall>m \<in> set ms. map_of r (severity_key str_lower m) =
              Some (message_text (last (filter (\<lambda>x. severity_key str_lower x = severity_key str_lower m) ms))))"
proof -
  let ?r = "foldl (\<lambda>r m. AList.update (severity_key str_lower m) (message_text m) r) [] ms"
  show ?thesis
  proof (rule exI [of _ ?r], intro conjI ballI)
    show "format_messages str_lower (JList ms) = Inr ?r"
      using assms by (simp add: format_messages_def messages_loop_fold)
    show "distinct (map fst ?r)"
      by (rule fold_update_distinct) simp
    show "set (map fst ?r) = (severity_key str_lower) ` set ms"
      using fold_update_keys [of "severity_key str_lower" message_text "[]" ms] by simp
  next
    fix m assume "m \<in> set ms"
    then have "filter (\<lambda>x. severity_key str_lower x = severity_key str_lower m) ms \<noteq> []"
      by (auto simp: filter_empty_conv)
    then show "map_of ?r (severity_key str_lower m) =
        Some (message_text (last (filter (\<lambda>x. severity_key str_lower x = severity_key str_lower m) ms)))"
      by (simp add: fold_update_lookup split: list.splits)
  qed
qed

theorem format_messages_last_wins_witness:
  "list_all is_message messages_example \<and>
   (\<exists>r. format_messages ascii_lower (JList messages_example) = Inr r \<and> distinct (map fst r) \<and>
        set (map fst r) = {''info'', ''warning''} \<and>
        map_of r ''info'' = Some (JStr ''c'') \<and>
        map_of r ''warning'' = Some (JStr ''b''))"
proof -
  have wf: "list_all is_message messages_example"
    by (simp add: messages_example_def is_message_def)
  have "(severity_key ascii_lower) ` set messages_example = {''info'', ''warning'', ''info''}"
    by (simp add: messages_example_def severity_key_def ascii_lower_simps ascii_lower_char_def)
  also have "\<dots> = {''info'', ''warning''}"
    by (simp only: insert_commute [of "''info''" "''warning''"] insert_absorb2)
  finally have keys: "(severity_key ascii_lower) ` set messages_example = {''info'', ''warning''}" .
  have k1: "severity_key ascii_lower (messages_example ! 2) = ''info''"
    and k2: "severity_key ascii_lower (messages_example ! 1) = ''warning''"
    by (simp_all add: messages_example_def severity_key_def ascii_lower_simps ascii_lower_char_def)
  have l1: "message_text (last (filter (\<lambda>x. severity_key ascii_lower x = ''info'') messages_example)) =
      JStr ''c''"
    by (simp add: messages_example_def severity_key_def message_text_def ascii_lower_simps
        ascii_lower_char_def)
  have l2: "message_text (last (filter (\<lambda>x. severity_key ascii_lower x = ''warning'') messages_example)) =
      JStr ''b''"
    by (simp add: messages_example_def severity_key_def message_text_def ascii_lower_simps
        ascii_lower_char_def)
  have m1: "messages_example ! 2 \<in> set messages_example"
    and m2: "messages_example ! 1 \<in> set messages_example"
    by (simp_all add: messages_example_def)
  from format_messages_last_wins [where str_lower = ascii_lower, OF wf] obtain r
    where run: "format_messages ascii_lower (JList messages_example) = Inr r"
      and d: "distinct (map fst r)"
      and k: "set (map fst r) = (severity_key ascii_lower) ` set messages_example"
      and l: "\<forall>m \<in> set messages_example. map_of r (severity_key ascii_lower m) =
                Some (message_text (last (filter (\<lambda>x. severity_key ascii_lower x = severity_key ascii_lower m)
                  messages_example)))"
    by blast
  from l m1 have "map_of r (severity_key ascii_lower (messages_example ! 2)) =
      Some (message_text (last (filter (\<lambda>x. severity_key ascii_lower x = severity_key ascii_lower (messages_example ! 2))
        messages_example)))" by (rule bspec)
  then have r1: "map_of r ''info'' = Some (JStr ''c'')"
    unfolding k1 l1 .
  from l m2 have "map_of r (severity_key ascii_lower (messages_example ! 1)) =
      Some (message_text (last (filter (\<lambda>x. severity_key ascii_lower x = severity_key ascii_lower (messages_example ! 1))
        messages_example)))" by (rule bspec)
  then have r2: "map_of r ''warning'' = Some (JStr ''b'')"
    unfolding k2 l2 .
  from k have k': "set (map fst r) = {''info'', ''warning''}" unfolding keys .
  from run d k' r1 r2 have
    "\<exists>r. format_messages ascii_lower (JList messages_example) = Inr r \<and> distinct (map fst r) \<and>
        set (map fst r) = {''info'', ''warning''} \<and>
        map_of r ''info'' = Some (JStr ''c'') \<and>
        map_of r ''warning'' = Some (JStr ''b'')"
    by blast
  with wf show ?thesis by (rule conjI)
qed

lemma lacks_field_get: "lacks_field k j \<Longrightarrow> py_get j k = Inr JNull"
  by (cases j) simp_all

lemma messages_loop_aborts:
  "\<exists>m \<in> set ms. lacks_field ''severity'' m \<Longrightarrow> \<exists>err. messages_loop str_lower ms r = Inl err"
proof (induction ms arbitrary: r)
  case Nil
  then show ?case by simp
next
  case (Cons m ms)
  show ?case
  proof (cases "lacks_field ''severity'' m")
    case True
    then have "py_get m ''severity'' = Inr JNull" by (rule lacks_field_get)
    then show ?thesis by (simp split: sum.splits)
  next
    case False
    with Cons.prems have "\<exists>m \<in> set ms. lacks_field ''severity'' m" by simp
    then have ih: "\<exists>err. messages_loop str_lower ms r' = Inl err" for r' by (rule Cons.IH)
    show ?thesis using ih by (simp split: sum.splits)
  qed
qed

lemma event_severity_loop_aborts:
  "\<exists>e \<in> set es. lacks_field ''bucket'' e \<or> lacks_field ''output'' e \<Longrightarrow>
   \<exists>err. event_severity_loop str_lower es r = Inl err"
proof (induction es arbitrary: r)
  case Nil
  then show ?case by simp
next
  case (Cons e es)
  show ?case
  proof (cases "lacks_field ''bucket'' e \<or> lacks_field ''output'' e")
    case True
    then show ?thesis
    proof
      assume "lacks_field ''bucket'' e"
      then have "py_get e ''bucket'' = Inr JNull" by (rule lacks_field_get)
      then show ?thesis by (simp add: Let_def)
    next
      assume "lacks_field ''output'' e"
      then have "py_get e ''output'' = Inr JNull" by (rule lacks_field_get)
      then show ?thesis by (simp add: Let_def split: sum.splits)
    qed
  next
    case False
    with Cons.prems have "\<exists>e \<in> set es. lacks_field ''bucket'' e \<or> lacks_field ''output'' e"
      by simp
    then have ih: "\<exists>err. event_severity_loop str_lower es r' = Inl err" for r' by (rule Cons.IH)
    show ?thesis using ih by (simp add: Let_def split: sum.splits)
  qed
qed

lemma impacted_resource_loop_aborts:
  "\<exists>e \<in> set es. lacks_field ''bucket'' e \<or> lacks_field ''output'' e \<Longrightarrow>
   \<exists>err. impacted_resource_loop str_lower es r = Inl err"
proof (induction es arbitrary: r)
  case Nil
  then show ?case by simp
next
  case (Cons e es)
  show ?case
  proof (cases "lacks_field ''bucket'' e \<or> lacks_field ''output'' e")
    case True
    then show ?thesis
    proof
      assume "lacks_field ''bucket'' e"
      then have "py_get e ''bucket'' = Inr JNull" by (rule lacks_field_get)
      then show ?thesis by simp
    next
      assume "lacks_field ''output'' e"
      then have "py_get e ''output'' = Inr JNull" by (rule lacks_field_get)
      then show ?thesis by (simp split: sum.splits)
    qed
  next
    case False
    with Cons.prems have "\<exists>e \<in> set es. lacks_field ''bucket'' e \<or> lacks_field ''output'' e"
      by simp
    then have ih: "\<exists>err. impacted_resource_loop str_lower es r' = Inl err" for r' by (rule Cons.IH)
    show ?thesis using ih by (simp split: sum.splits)
  qed
qed

text \<open>
  Claim C7, as amended. An entry that lacks \<open>bucket\<close> or \<open>output\<close> makes
  \<open>format_event_severity\<close> and \<open>format_impacted_resource\<close> raise, and an entry that
  lacks \<open>severity\<close> makes \<open>format_messages\<close> raise: the whole normalization ends with
  an exception, nothing is skipped and no partial mapping is returned. A missing
  top-level container (\<open>None\<close>) is fatal too, with \<open>TypeError\<close>.
\<close>

theorem missing_field_aborts:
  "((\<exists>e \<in> set es. lacks_field ''bucket'' e \<or> lacks_field ''output'' e) \<longrightarrow>
      (\<exists>err. format_event_severity str_lower (JList es) = Inl err) \<and>
      (\<exists>err. format_impacted_resource str_lower (JList es) = Inl err)) \<and>
   ((\<exists>m \<in> set es. lacks_field ''severity'' m) \<longrightarrow>
      (\<exists>err. format_messages str_lower (JList es) = Inl err)) \<and>
   format_event_severity str_lower JNull = Inl TypeError \<and>
   format_impacted_resource str_lower JNull = Inl TypeError \<and>
   format_messages str_lower JNull = Inl TypeError"
proof (intro conjI impI)
  assume a: "\<exists>e \<in> set es. lacks_field ''bucket'' e \<or> lacks_field ''output'' e"
  show "\<exists>err. format_event_severity str_lower (JList es) = Inl err"
    using event_severity_loop_aborts [OF a] by (simp add: format_event_severity_def)
  show "\<exists>err. format_impacted_resource str_lower (JList es) = Inl err"
    using impacted_resource_loop_aborts [OF a] by (simp add: format_impacted_resource_def)
next
  assume a: "\<exists>m \<in> set es. lacks_field ''severity'' m"
  show "\<exists>err. format_messages str_lower (JList es) = Inl err"
    using messages_loop_aborts [OF a] by (simp add: format_messages_def)
next
  show "format_event_severity str_lower JNull = Inl TypeError"
    by (simp add: format_event_severity_def)
  show "format_impacted_resource str_lower JNull = Inl TypeError"
    by (simp add: format_impacted_resource_def)
  show "format_messages str_lower JNull = Inl TypeError"
    by (simp add: format_messages_def)
qed

theorem missing_field_aborts_witness:
  "(\<exists>e \<in> set severity_missing. lacks_field ''bucket'' e \<or> lacks_field ''output'' e) \<and>
   (\<exists>err. format_event_severity ascii_lower (JList severity_missing) = Inl err) \<and>
   (\<exists>err. format_impacted_resource ascii_lower (JList severity_missing) = Inl err) \<and>
   (\<exists>m \<in> set messages_missing. lacks_field ''severity'' m) \<and>
   (\<exists>err. format_messages ascii_lower (JList messages_missing) = Inl err)"
proof -
  have a: "\<exists>e \<in> set severity_missing. lacks_field ''bucket'' e \<or> lacks_field ''output'' e"
    by (simp add: severity_missing_def)
  have b: "\<exists>m \<in> set messages_missing. lacks_field ''severity'' m"
    by (simp add: messages_missing_def)
  from missing_field_aborts [where es = severity_missing and str_lower = ascii_lower] a
  have c: "(\<exists>err. format_event_severity ascii_lower (JList severity_missing) = Inl err) \<and>
      (\<exists>err. format_impacted_resource ascii_lower (JList severity_missing) = Inl err)"
    by blast
  from missing_field_aborts [where es = messages_missing and str_lower = ascii_lower] b
  have d: "\<exists>err. format_messages ascii_lower (JList messages_missing) = Inl err"
    by blast
  from a c b d show ?thesis by blast
qed

text \<open>
  Claim C7 as stated fails: the first message has no severity, the second is well
  formed, and the call raises \<open>AttributeError\<close> instead of skipping the first.
\<close>

theorem missing_field_skipped_counterexample:
  "lacks_field ''severity'' (messages_missing ! 0) \<and>
   is_message (messages_missing ! 1) \<and>
   format_messages ascii_lower (JList messages_missing) = Inl AttributeError"
  by (simp add: messages_missing_def is_message_def format_messages_def)

lemma py_eq_str: "py_eq a (JStr s) = (a = JStr s)"
  by (cases a) auto

lemma get_site_id_loop_found:
  assumes "list_all is_site entities" "\<exists>s \<in> set entities. py_getitem s ''name'' = Inr (JStr n)"
  shows "\<exists>s \<in> set entities. \<exists>u. py_getitem s ''name'' = Inr (JStr n) \<and>
           py_getitem s ''uuid'' = Inr u \<and> get_site_id_loop n entities = Inr u"
  using assms
proof (induction entities)
  case Nil
  then show ?case by simp
next
  case (Cons s entities)
  from Cons.prems(1) have site: "is_site s" and rest: "list_all is_site entities"
    by simp_all
  from site have hn: "has_field ''name'' (\<lambda>v. True) s"
    and hu: "has_field ''uuid'' (\<lambda>v. True) s"
    by (simp_all add: is_site_def)
  from has_fieldD [OF hn] obtain kvs v where s: "s = JDict kvs" and v: "map_of kvs ''name'' = Some v"
    by blast
  from has_fieldD [OF hu] s obtain u where u: "map_of kvs ''uuid'' = Some u"
    by auto
  show ?case
  proof (cases "v = JStr n")
    case True
    then have "py_getitem s ''name'' = Inr (JStr n) \<and> py_getitem s ''uuid'' = Inr u \<and>
        get_site_id_loop n (s # entities) = Inr u"
      by (simp add: s v u py_eq_str)
    then show ?thesis by auto
  next
    case False
    then have step: "get_site_id_loop n (s # entities) = get_site_id_loop n entities"
      by (simp add: s v py_eq_str)
    from False Cons.prems(2) have "\<exists>s \<in> set entities. py_getitem s ''name'' = Inr (JStr n)"
      by (simp add: s v)
    from Cons.IH [OF rest this] show ?thesis unfolding step by auto
  qed
qed

lemma get_site_id_loop_absent:
  assumes "list_all is_site entities" "\<not> (\<exists>s \<in> set entities. py_getitem s ''name'' = Inr (JStr n))"
  shows "get_site_id_loop n entities = Inr JNull"
  using assms
proof (induction entities)
  case Nil
  then show ?case by simp
next
  case (Cons s entities)
  from Cons.prems(1) have site: "is_site s" and rest: "list_all is_site entities"
    by simp_all
  from site have hn: "has_field ''name'' (\<lambda>v. True) s"
    by (simp add: is_site_def)
  from has_fieldD [OF hn] obtain kvs v where s: "s = JDict kvs" and v: "map_of kvs ''name'' = Some v"
    by blast
  from Cons.prems(2) have ne: "v \<noteq> JStr n" by (simp add: s v)
  from Cons.prems(2) have "\<not> (\<exists>s \<in> set entities. py_getitem s ''name'' = Inr (JStr n))" by simp
  from Cons.IH [OF rest this] ne show ?case by (simp add: s v py_eq_str)
qed

lemma get_site_id_run:
  assumes "query_obj config_ig_path kwargs = Inr obj" "assurance_entities obj = Inr (JList entities)"
  shows "get_site_id query_obj n kwargs =
           (get_site_id_loop n entities, [Query_obj config_ig_path kwargs])"
  using assms by (simp add: get_site_id_def call_query_obj_def io_bind_def io_lift_def)

text \<open>
  Claim C9. Against a fetched site list whose entries carry a name and a uuid: if some
  site's name equals the given name exactly, \<open>get_site_id\<close> returns the uuid of a site
  with that name (the first one); if no name matches, it returns \<open>None\<close> and raises
  nothing.
\<close>

theorem get_site_id_total:
  assumes "query_obj config_ig_path kwargs = Inr obj"
    and "assurance_entities obj = Inr (JList entities)"
    and "list_all is_site entities"
  shows "((\<exists>s \<in> set entities. py_getitem s ''name'' = Inr (JStr n)) \<longrightarrow>
            (\<exists>s \<in> set entities. \<exists>u. py_getitem s ''name'' = Inr (JStr n) \<and>
               py_getitem s ''uuid'' = Inr u \<and>
               fst (get_site_id query_obj n kwargs) = Inr u)) \<and>
         (\<not> (\<exists>s \<in> set entities. py_getitem s ''name'' = Inr (JStr n)) \<longrightarrow>
            fst (get_site_id query_obj n kwargs) = Inr JNull)"
proof -
  have run: "fst (get_site_id query_obj n kwargs) = get_site_id_loop n entities"
    using assms(1,2)
    by (simp add: get_site_id_def call_query_obj_def io_bind_def io_lift_def)
  show ?thesis
    unfolding run
    using get_site_id_loop_found [OF assms(3)] get_site_id_loop_absent [OF assms(3)]
    by blast
qed

theorem get_site_id_total_witness:
  "list_all is_site sites_example \<and>
   fst (get_site_id (\<lambda>path kwargs. Inr (sites_response sites_example)) ''siteB'' []) =
     Inr (JStr ''u-2'') \<and>
   fst (get_site_id (\<lambda>path kwargs. Inr (sites_response sites_example)) ''siteC'' []) =
     Inr JNull"
proof -
  let ?q = "\<lambda>(path :: string) (kwargs :: (string \<times> json) list).
              (Inr (sites_response sites_example) :: error + json)"
  have q: "?q config_ig_path [] = Inr (sites_response sites_example)" by simp
  have a: "assurance_entities (sites_response sites_example) = Inr (JList sites_example)"
    by (simp add: assurance_entities_def value_data_def sites_response_def)
  have w: "list_all is_site sites_example"
    by (simp add: sites_example_def is_site_def)
  have b: "\<exists>s \<in> set sites_example. py_getitem s ''name'' = Inr (JStr ''siteB'')"
    by (simp add: sites_example_def)
  have c: "\<not> (\<exists>s \<in> set sites_example. py_getitem s ''name'' = Inr (JStr ''siteC''))"
    by (simp add: sites_example_def)
  note t = get_site_id_total [where query_obj = ?q and kwargs = "[]" and entities = sites_example
      and obj = "sites_response sites_example", OF refl a w]
  from t [of "''siteB''"] b
  obtain s u where "s \<in> set sites_example" "py_getitem s ''name'' = Inr (JStr ''siteB'')"
    "py_getitem s ''uuid'' = Inr u" "fst (get_site_id ?q ''siteB'' []) = Inr u"
    by blast
  then have r1: "fst (get_site_id ?q ''siteB'' []) = Inr (JStr ''u-2'')"
    by (auto simp: sites_example_def)
  from t [of "''siteC''"] c
  have r2: "fst (get_site_id ?q ''siteC'' []) = Inr JNull"
    by blast
  from w r1 r2 show ?thesis by (intro conjI)
qed

text \<open>
  Claim C8, as amended. When the service's filtered list (size=1, status FINISHED) is
  not empty, \<open>get_epochs\<close> returns its first record; when the list is empty, it raises
  \<open>IndexError\<close> (line 40 indexes the list without a guard), and no absence value is
  returned.
\<close>

theorem get_epochs_first_or_raise:
  assumes "query_obj (event_insight_group_path ig_name site_name @ ''/epochs?$size=1&$status=FINISHED'')
             [(''prefix'', JStr prefix)] = Inr obj"
    and "value_data obj = Inr (JList records)"
  shows "fst (get_epochs query_obj ig_name site_name) =
           (case records of [] \<Rightarrow> Inl IndexError | first # rest \<Rightarrow> Inr first)"
  using assms
  by (simp add: get_epochs_def call_query_obj_def io_bind_def io_lift_def split: list.splits)

theorem get_epochs_first_or_raise_witness:
  "fst (get_epochs (\<lambda>path kwargs. Inr (data_response [JInt 7, JInt 8])) ''ig'' ''site'') =
     Inr (JInt 7)"
proof -
  let ?q = "\<lambda>(path :: string) (kwargs :: (string \<times> json) list).
              (Inr (data_response [JInt 7, JInt 8]) :: error + json)"
  have q: "?q (event_insight_group_path ''ig'' ''site'' @ ''/epochs?$size=1&$status=FINISHED'')
             [(''prefix'', JStr prefix)] = Inr (data_response [JInt 7, JInt 8])" by simp
  have v: "value_data (data_response [JInt 7, JInt 8]) = Inr (JList [JInt 7, JInt 8])"
    by (simp add: value_data_def data_response_def)
  from get_epochs_first_or_raise [where query_obj = ?q and ig_name = "''ig''"
      and site_name = "''site''" and obj = "data_response [JInt 7, JInt 8]"
      and records = "[JInt 7, JInt 8]", OF refl v]
  show ?thesis by simp
qed

text \<open>
  Claim C8 as stated fails: on an empty list the call raises.
\<close>

theorem get_epochs_empty_counterexample:
  "value_data (data_response []) = Inr (JList []) \<and>
   fst (get_epochs (\<lambda>path kwargs. Inr (data_response [])) ''ig'' ''site'') = Inl IndexError"
  by (simp add: get_epochs_def call_query_obj_def io_bind_def io_lift_def value_data_def
      data_response_def)

lemma query_pcvs_trace:
  "snd (query_pcvs query_obj ig_name) =
     [Query_obj (config_ig_path @ ''/'' @ ig_name @
        ''/prechangeAnalysis?$sort=-analysisSubmissionTime'') [(''prefix'', JStr prefix)]]"
  by (simp add: query_pcvs_def call_query_obj_def io_bind_def io_lift_def Let_def
      split: sum.splits prod.splits)

text \<open>
  Claim C3, as amended. When the site name or the job name is missing, \<open>query_pcv\<close>
  ends with the fatal error of line 154, but only after the listing query of line 148
  (\<open>query_pcvs\<close>) has been issued: exactly that one request is made, and neither the
  site lookup nor a per-job query follows. If the listing query itself fails, its error
  is the outcome.
\<close>

theorem query_pcv_missing_name:
  assumes "site_name = None \<or> pcv_name = None"
  shows "fst (query_pcv query_obj repr ig_name site_name pcv_name) =
           (case fst (query_pcvs query_obj ig_name) of
              Inl e \<Rightarrow> Inl e
            | Inr pcv_results \<Rightarrow>
                Inl (Fail ''site name and prechange validation job name are required'')) \<and>
         snd (query_pcv query_obj repr ig_name site_name pcv_name) =
           [Query_obj (config_ig_path @ ''/'' @ ig_name @
              ''/prechangeAnalysis?$sort=-analysisSubmissionTime'') [(''prefix'', JStr prefix)]]"
proof -
  obtain r t where rt: "query_pcvs query_obj ig_name = (r, t)" by (cases "query_pcvs query_obj ig_name")
  with query_pcvs_trace [of query_obj ig_name]
  have t: "t = [Query_obj (config_ig_path @ ''/'' @ ig_name @
              ''/prechangeAnalysis?$sort=-analysisSubmissionTime'') [(''prefix'', JStr prefix)]]"
    by simp
  show ?thesis
    using assms
    by (auto simp: query_pcv_def rt t io_bind_def io_lift_def split: sum.splits option.splits)
qed

theorem query_pcv_missing_name_witness:
  "fst (query_pcv (\<lambda>path kwargs. Inr (data_response [])) (\<lambda>j. []) ''ig'' None (Some ''job'')) =
     Inl (Fail ''site name and prechange validation job name are required'')"
proof -
  let ?q = "\<lambda>(path :: string) (kwargs :: (string \<times> json) list).
              (Inr (data_response []) :: error + json)"
  have a: "(None :: string option) = None \<or> Some ''job'' = None" by simp
  have b: "fst (query_pcvs ?q ''ig'') = Inr (JList [])"
    by (simp add: query_pcvs_def call_query_obj_def io_bind_def io_lift_def value_data_def
        data_response_def)
  from query_pcv_missing_name [where query_obj = ?q and repr = "\<lambda>j. []" and ig_name = "''ig''"
      and site_name = None and pcv_name = "Some ''job''", OF a]
  show ?thesis
    unfolding b by simp
qed

text \<open>
  Claim C3 as stated fails: a request has been issued before the rejection.
\<close>

theorem query_pcv_queries_first_counterexample:
  "snd (query_pcv (\<lambda>path kwargs. Inr (data_response [])) (\<lambda>j. []) ''ig'' None (Some ''job'')) =
     [Query_obj ''config/insightsGroup/ig/prechangeAnalysis?$sort=-analysisSubmissionTime''
        [(''prefix'', JStr ''/sedgeapi/v1/cisco-nir/api/api/telemetry/v2'')]] \<and>
   fst (query_pcv (\<lambda>path kwargs. Inr (data_response [])) (\<lambda>j. []) ''ig'' None (Some ''job'')) =
     Inl (Fail ''site name and prechange validation job name are required'')"
  by (simp add: query_pcv_def query_pcvs_def call_query_obj_def io_bind_def io_lift_def
      value_data_def data_response_def config_ig_path_def prefix_def)

lemma fst_io_bind:
  "fst (io_bind m f) = (case fst m of Inl e \<Rightarrow> Inl e | Inr x \<Rightarrow> fst (f x))"
  by (cases m) (auto simp: io_bind_def split: sum.splits prod.splits)

lemma snd_io_bind:
  "snd (io_bind m f) = (case fst m of Inl e \<Rightarrow> snd m | Inr x \<Rightarrow> snd m @ snd (f x))"
  by (cases m) (auto simp: io_bind_def split: sum.splits prod.splits)

lemma io_lift_simps: "fst (io_lift r) = r" "snd (io_lift r) = []"
  by (simp_all add: io_lift_def)

lemma quiet_lift: "quiet (io_lift r)"
  by (simp add: quiet_def io_lift_def)

lemma quiet_bind:
  assumes "quiet m" "\<And>x. quiet (f x)"
  shows "quiet (io_bind m f)"
  using assms by (simp add: quiet_def snd_io_bind split: sum.splits)

lemma quiet_query_requirements: "quiet (call_query_requirements c ig)"
  by (simp add: quiet_def call_query_requirements_def)

lemma quiet_get_site_id: "quiet (call_get_site_id c ig site)"
  by (simp add: quiet_def call_get_site_id_def)

lemma quiet_associated_sites: "quiet (associated_sites c ig ss)"
  by (induction ss) (simp_all add: quiet_lift quiet_bind quiet_get_site_id)

lemma quiet_build_payload: "quiet (build_payload c p ss record)"
  unfolding build_payload_def by (intro quiet_bind quiet_associated_sites quiet_lift)

lemma quiet_locate: "quiet (locate c p nd0)"
  unfolding locate_def by (intro quiet_bind quiet_query_requirements quiet_lift)

lemma quiet_absent_check: "quiet (absent_branch c True path uuid nd1)"
  unfolding absent_branch_def by (intro quiet_bind quiet_lift) (simp add: quiet_lift)

lemma quiet_reconcile_check: "quiet (reconcile_present c p True path uuid nd1 f ss)"
  unfolding reconcile_present_def
  by (intro quiet_bind quiet_lift quiet_build_payload) (simp add: quiet_lift)

lemma quiet_present_check: "quiet (present_branch c p True path uuid nd1)"
  unfolding present_branch_def
  by (auto simp: quiet_lift intro!: quiet_bind quiet_reconcile_check split: option.splits)

lemma quiet_main_check: "quiet (main c p True nd0)"
  unfolding main_def Let_def
  by (intro quiet_bind quiet_lift quiet_locate)
     (simp add: quiet_lift quiet_absent_check quiet_present_check)

lemma locate_trace: "snd (locate c p nd0) = [Query_requirements (insights_group p)]"
  by (simp add: locate_def snd_io_bind fst_io_bind io_lift_simps call_query_requirements_def
      split: sum.splits)

lemma main_located:
  assumes "required_if p = Inr ()" "fst (locate c p nd0) = Inr (uuid, nd1)"
  shows "fst (main c p check_mode nd0) =
           fst (if state p = Absent \<and> py_truthy uuid
                then absent_branch c check_mode (requirements_path c (insights_group p)) uuid nd1
                else if state p = Present
                  then present_branch c p check_mode (requirements_path c (insights_group p)) uuid nd1
                else io_lift (Inr nd1))"
    and "snd (main c p check_mode nd0) =
           Query_requirements (insights_group p) #
           snd (if state p = Absent \<and> py_truthy uuid
                then absent_branch c check_mode (requirements_path c (insights_group p)) uuid nd1
                else if state p = Present
                  then present_branch c p check_mode (requirements_path c (insights_group p)) uuid nd1
                else io_lift (Inr nd1))"
  using assms
  by (simp_all add: main_def Let_def fst_io_bind snd_io_bind io_lift_simps locate_trace)


lemma required_present:
  assumes "state p = Present" "required_if p = Inr ()"
  shows "sites p \<noteq> None" "file_path p \<noteq> None" "name p \<noteq> None" "enabled p \<noteq> None"
  using assms by (simp_all add: required_if_def missing_present_def split: if_splits)


text \<open>
  Claim C2. With state=present and a located UUID, if the basename of the given file
  differs from the located record's \<open>uploadedFileName\<close> joined with a dot and its
  \<open>uploadedFileExtension\<close>, the invocation ends with the fatal error of line 162, and
  the only call made before it is the lookup of the requirements: no POST, PATCH or
  DELETE is issued, in check mode or not.
\<close>

theorem file_mismatch_fails_before_mutation:
  assumes "state p = Present"
    and "required_if p = Inr ()"
    and "fst (locate c p nd0) = Inr (uuid, nd1)"
    and "py_truthy uuid"
    and "file_path p = Some f"
    and "attached_file_name c (existing nd1) = Inr attached"
    and "attached \<noteq> basename f"
  shows "fst (main c p check_mode nd0) = Inl (Fail (mismatch_msg (basename f) attached)) \<and>
         snd (main c p check_mode nd0) = [Query_requirements (insights_group p)] \<and>
         list_all (\<lambda>ev. \<not> mutating ev) (snd (main c p check_mode nd0))"
proof -
  from required_present(1) [OF assms(1,2)] obtain ss where ss: "sites p = Some ss" by auto
  let ?path = "requirements_path c (insights_group p)"
  have chk: "check_file_name c (existing nd1) f = Inl (Fail (mismatch_msg (basename f) attached))"
    using assms(6,7) by (simp add: check_file_name_def)
  have r: "reconcile_present c p check_mode ?path uuid nd1 f ss =
             (Inl (Fail (mismatch_msg (basename f) attached)), [])"
    using assms(4) chk by (simp add: reconcile_present_def io_bind_def io_lift_def)
  have b: "present_branch c p check_mode ?path uuid nd1 =
             (Inl (Fail (mismatch_msg (basename f) attached)), [])"
    by (simp add: present_branch_def assms(5) ss r io_bind_def)
  from main_located [OF assms(2,3), of check_mode] assms(1) b
  have "fst (main c p check_mode nd0) = Inl (Fail (mismatch_msg (basename f) attached))"
    and "snd (main c p check_mode nd0) = [Query_requirements (insights_group p)]"
    by simp_all
  then show ?thesis by simp
qed

lemma reconcile_present_check:
  assumes "py_truthy uuid \<longrightarrow> check_file_name c (existing nd1) f = Inr ()"
    and "sanitize_dict c (existing nd1) delete_keys = Inr prev"
    and "fst (build_payload c p ss (existing nd1)) = Inr payload"
  shows "fst (reconcile_present c p True path uuid nd1 f ss) =
           Inr \<lparr>previous = prev, existing = JDict payload\<rparr>"
  using assms
  by (simp add: reconcile_present_def fst_io_bind io_lift_simps)

lemma attach_file_dicts:
  assumes "rsplit_dot (basename f) = Inr (filename, extension)"
  shows "attach_file f \<lparr>previous = JDict pv, existing = JDict ev\<rparr> =
           Inr \<lparr>previous = JDict (AList.update ''uploadedFileName'' (JStr filename)
                               (AList.update ''uploadedFileExtension'' (JStr extension) pv)),
                existing = JDict (AList.update ''uploadedFileName'' (JStr filename)
                               (AList.update ''uploadedFileExtension'' (JStr extension) ev))\<rparr>"
  using assms by (simp add: attach_file_def)

text \<open>
  Claim C4, as amended. In check mode no POST, PATCH or DELETE is ever issued, whatever
  the invocation and whatever the collaborators answer. For state=absent with a located
  UUID the run reports the sanitized record as previous and the empty dictionary as
  existing; with no UUID located nothing is set. For state=present, when the file-name
  check passes and the file's basename has an extension, line 193 sets existing to the
  desired payload, and the run reports that payload with \<open>uploadedFileExtension\<close> and
  \<open>uploadedFileName\<close> of the given file put on it (lines 195 to 198), as it does on the
  previous snapshot.
\<close>

theorem check_mode_reports_without_mutation:
  "list_all (\<lambda>ev. \<not> mutating ev) (snd (main c p True start)) \<and>
   (state p = Absent \<and> required_if p = Inr () \<and> fst (locate c p start) = Inr (uuid, found) \<and>
    py_truthy uuid \<and> sanitize_dict c (existing found) delete_keys = Inr prev \<longrightarrow>
      fst (main c p True start) = Inr \<lparr>previous = prev, existing = JDict []\<rparr>) \<and>
   (state p = Absent \<and> required_if p = Inr () \<and> fst (locate c p start) = Inr (uuid, found) \<and>
    \<not> py_truthy uuid \<longrightarrow>
      fst (main c p True start) = Inr found) \<and>
   (state p = Present \<and> required_if p = Inr () \<and> fst (locate c p start) = Inr (uuid, found) \<and>
    file_path p = Some f \<and> sites p = Some ss \<and>
    (py_truthy uuid \<longrightarrow> check_file_name c (existing found) f = Inr ()) \<and>
    sanitize_dict c (existing found) delete_keys = Inr (JDict pv) \<and>
    fst (build_payload c p ss (existing found)) = Inr payload \<and>
    rsplit_dot (basename f) = Inr (filename, extension) \<longrightarrow>
      fst (reconcile_present c p True (requirements_path c (insights_group p)) uuid found f ss) =
        Inr \<lparr>previous = JDict pv, existing = JDict payload\<rparr> \<and>
      fst (main c p True start) =
        Inr \<lparr>previous = JDict (AList.update ''uploadedFileName'' (JStr filename)
                            (AList.update ''uploadedFileExtension'' (JStr extension) pv)),
             existing = JDict (AList.update ''uploadedFileName'' (JStr filename)
                            (AList.update ''uploadedFileExtension'' (JStr extension) payload))\<rparr>)"
proof (intro conjI impI)
  show "list_all (\<lambda>ev. \<not> mutating ev) (snd (main c p True start))"
    using quiet_main_check [of c p start] by (simp add: quiet_def)
next
  assume a: "state p = Absent \<and> required_if p = Inr () \<and>
    fst (locate c p start) = Inr (uuid, found) \<and> py_truthy uuid \<and>
    sanitize_dict c (existing found) delete_keys = Inr prev"
  then have "fst (main c p True start) =
      fst (absent_branch c True (requirements_path c (insights_group p)) uuid found)"
    using main_located(1) [of p c start uuid found True] by simp
  with a show "fst (main c p True start) = Inr \<lparr>previous = prev, existing = JDict []\<rparr>"
    by (simp add: absent_branch_def fst_io_bind io_lift_simps)
next
  assume a: "state p = Absent \<and> required_if p = Inr () \<and>
    fst (locate c p start) = Inr (uuid, found) \<and> \<not> py_truthy uuid"
  then show "fst (main c p True start) = Inr found"
    using main_located(1) [of p c start uuid found True] by (simp add: io_lift_simps)
next
  assume a: "state p = Present \<and> required_if p = Inr () \<and>
    fst (locate c p start) = Inr (uuid, found) \<and> file_path p = Some f \<and> sites p = Some ss \<and>
    (py_truthy uuid \<longrightarrow> check_file_name c (existing found) f = Inr ()) \<and>
    sanitize_dict c (existing found) delete_keys = Inr (JDict pv) \<and>
    fst (build_payload c p ss (existing found)) = Inr payload \<and>
    rsplit_dot (basename f) = Inr (filename, extension)"
  let ?path = "requirements_path c (insights_group p)"
  from a have r: "fst (reconcile_present c p True ?path uuid found f ss) =
      Inr \<lparr>previous = JDict pv, existing = JDict payload\<rparr>"
    by (intro reconcile_present_check) simp_all
  then show "fst (reconcile_present c p True ?path uuid found f ss) =
      Inr \<lparr>previous = JDict pv, existing = JDict payload\<rparr>" .
  from a have m: "fst (main c p True start) = fst (present_branch c p True ?path uuid found)"
    using main_located(1) [of p c start uuid found True] by simp
  from a have at: "attach_file f \<lparr>previous = JDict pv, existing = JDict payload\<rparr> =
      Inr \<lparr>previous = JDict (AList.update ''uploadedFileName'' (JStr filename)
                            (AList.update ''uploadedFileExtension'' (JStr extension) pv)),
           existing = JDict (AList.update ''uploadedFileName'' (JStr filename)
                            (AList.update ''uploadedFileExtension'' (JStr extension) payload))\<rparr>"
    by (intro attach_file_dicts) simp
  from a show "fst (main c p True start) =
      Inr \<lparr>previous = JDict (AList.update ''uploadedFileName'' (JStr filename)
                            (AList.update ''uploadedFileExtension'' (JStr extension) pv)),
           existing = JDict (AList.update ''uploadedFileName'' (JStr filename)
                            (AList.update ''uploadedFileExtension'' (JStr extension) payload))\<rparr>"
    unfolding m by (simp add: present_branch_def fst_io_bind io_lift_simps r at)
qed





lemmas run_defs =
  service_def desired_def fresh_def stored_requirement_def locate_def fst_io_bind snd_io_bind
  io_lift_simps call_query_requirements_def call_get_site_id_def call_request_def
  required_if_def missing_absent_def missing_present_def build_payload_def base_payload_def
  with_description_def str_or_none_def bool_or_none_def attached_file_name_def
  check_file_name_def basename_def rsplit_dot_def delete_keys_def


theorem file_mismatch_fails_before_mutation_witness:
  "attached_file_name (service [stored_requirement]) stored_requirement = Inr ''a.json'' \<and>
   basename ''dir/b.json'' = ''b.json'' \<and>
   fst (main (service [stored_requirement]) (desired Present None ''dir/b.json'') False fresh) =
     Inl (Fail (mismatch_msg ''b.json'' ''a.json'')) \<and>
   snd (main (service [stored_requirement]) (desired Present None ''dir/b.json'') False fresh) =
     [Query_requirements ''ig'']"
proof -
  let ?p = "desired Present None ''dir/b.json''"
  let ?c = "service [stored_requirement]"
  let ?n = "\<lparr>previous = JDict [], existing = stored_requirement\<rparr>"
  have s: "state ?p = Present" by (simp add: desired_def)
  have r: "required_if ?p = Inr ()" by (simp add: run_defs)
  have l: "fst (locate ?c ?p fresh) = Inr (JStr ''r-1'', ?n)" by (simp add: run_defs)
  have u: "py_truthy (JStr ''r-1'')" by simp
  have f: "file_path ?p = Some ''dir/b.json''" by (simp add: desired_def)
  have a: "attached_file_name ?c (existing ?n) = Inr ''a.json''" by (simp add: run_defs)
  have b: "basename ''dir/b.json'' = ''b.json''" by (simp add: basename_def)
  have d: "''a.json'' \<noteq> basename ''dir/b.json''" unfolding b by simp
  have i: "insights_group ?p = ''ig''" by (simp add: desired_def)
  from file_mismatch_fails_before_mutation [OF s r l u f a d, of False] a b show ?thesis
    unfolding i by simp
qed


theorem check_mode_reports_without_mutation_witness:
  "list_all (\<lambda>ev. \<not> mutating ev)
     (snd (main (service []) (desired Present None ''dir/tmpl.json'') True fresh)) \<and>
   fst (main (service []) (desired Present None ''dir/tmpl.json'') True fresh) =
     Inr \<lparr>previous = JDict [(''uploadedFileExtension'', JStr ''json''),
                              (''uploadedFileName'', JStr ''tmpl'')],
          existing = JDict
            (base_payload (desired Present None ''dir/tmpl.json'')
               [JDict [(''enabled'', JBool True), (''uuid'', JStr ''id-siteA'')]] @
             [(''uploadedFileExtension'', JStr ''json''), (''uploadedFileName'', JStr ''tmpl'')])\<rparr> \<and>
   list_all (\<lambda>ev. \<not> mutating ev)
     (snd (main (service [stored_requirement]) (desired Absent None ''a.json'') True fresh)) \<and>
   fst (main (service [stored_requirement]) (desired Absent None ''a.json'') True fresh) =
     Inr \<lparr>previous = JDict [(''name'', JStr ''req1''), (''description'', JStr ''old''),
                              (''configurationType'',
                               JStr ''TEMPLATE_BASED_CONFIGURATION_COMPLIANCE'')],
          existing = JDict []\<rparr>"
proof -
  let ?p = "desired Present None ''dir/tmpl.json''"
  let ?c = "service []"
  let ?payload = "base_payload ?p [JDict [(''enabled'', JBool True), (''uuid'', JStr ''id-siteA'')]]"
  have s: "state ?p = Present" by (simp add: desired_def)
  have r: "required_if ?p = Inr ()" by (simp add: run_defs)
  have l: "fst (locate ?c ?p fresh) = Inr (JNull, fresh)" by (simp add: run_defs)
  have f: "file_path ?p = Some ''dir/tmpl.json''" by (simp add: desired_def)
  have ss: "sites ?p = Some [''siteA'']" by (simp add: desired_def)
  have u: "py_truthy JNull \<longrightarrow> check_file_name ?c (existing fresh) ''dir/tmpl.json'' = Inr ()"
    by simp
  have z: "sanitize_dict ?c (existing fresh) delete_keys = Inr (JDict [])"
    by (simp add: service_def fresh_def)
  have b: "fst (build_payload ?c ?p [''siteA''] (existing fresh)) = Inr ?payload"
    by (simp add: run_defs)
  have x: "rsplit_dot (basename ''dir/tmpl.json'') = Inr (''tmpl'', ''json'')"
    by (simp add: basename_def rsplit_dot_def)
  note t1 = check_mode_reports_without_mutation [where c = ?c and p = ?p and start = fresh
      and uuid = JNull and found = fresh and f = "''dir/tmpl.json''" and ss = "[''siteA'']"
      and pv = "[]" and payload = ?payload and filename = "''tmpl''" and extension = "''json''"]
  from t1 have q1: "list_all (\<lambda>ev. \<not> mutating ev) (snd (main ?c ?p True fresh))"
    by (rule conjunct1)
  from t1 s r l f ss u z b x
  have "fst (main ?c ?p True fresh) =
      Inr \<lparr>previous = JDict (AList.update ''uploadedFileName'' (JStr ''tmpl'')
                            (AList.update ''uploadedFileExtension'' (JStr ''json'') [])),
           existing = JDict (AList.update ''uploadedFileName'' (JStr ''tmpl'')
                            (AList.update ''uploadedFileExtension'' (JStr ''json'') ?payload))\<rparr>"
    by blast
  then have v1: "fst (main ?c ?p True fresh) =
     Inr \<lparr>previous = JDict [(''uploadedFileExtension'', JStr ''json''),
                              (''uploadedFileName'', JStr ''tmpl'')],
          existing = JDict (?payload @
             [(''uploadedFileExtension'', JStr ''json''), (''uploadedFileName'', JStr ''tmpl'')])\<rparr>"
    by (simp add: base_payload_def)
  let ?p2 = "desired Absent None ''a.json''"
  let ?c2 = "service [stored_requirement]"
  let ?n = "\<lparr>previous = JDict [], existing = stored_requirement\<rparr>"
  let ?prev = "JDict [(''name'', JStr ''req1''), (''description'', JStr ''old''),
                      (''configurationType'', JStr ''TEMPLATE_BASED_CONFIGURATION_COMPLIANCE'')]"
  have s2: "state ?p2 = Absent" by (simp add: desired_def)
  have r2: "required_if ?p2 = Inr ()" by (simp add: run_defs)
  have l2: "fst (locate ?c2 ?p2 fresh) = Inr (JStr ''r-1'', ?n)" by (simp add: run_defs)
  have u2: "py_truthy (JStr ''r-1'')" by simp
  have z2: "sanitize_dict ?c2 (existing ?n) delete_keys = Inr ?prev"
    by (simp add: service_def stored_requirement_def delete_keys_def)
  note t2 = check_mode_reports_without_mutation [where c = ?c2 and p = ?p2 and start = fresh
      and uuid = "JStr ''r-1''" and found = ?n and prev = ?prev]
  from t2 have q2: "list_all (\<lambda>ev. \<not> mutating ev) (snd (main ?c2 ?p2 True fresh))"
    by (rule conjunct1)
  from t2 s2 r2 l2 u2 z2
  have v2: "fst (main ?c2 ?p2 True fresh) = Inr \<lparr>previous = ?prev, existing = JDict []\<rparr>"
    by blast
  from q1 v1 q2 v2 show ?thesis by (intro conjI)
qed



text \<open>
  Claim C4 as stated fails. In check mode with state=present the reported existing is
  not the desired payload: it carries two more keys, the file's extension and name. A
  file whose basename has no dot ends the run with \<open>ValueError\<close> at line 195, so nothing
  is reported. With state=absent and a lookup that leaves a record without UUID in
  existing, existing is not set to empty.
\<close>

theorem check_mode_report_counterexample:
  "fst (build_payload (service []) (desired Present None ''dir/tmpl.json'') [''siteA'']
          (JDict [])) =
     Inr (base_payload (desired Present None ''dir/tmpl.json'')
            [JDict [(''enabled'', JBool True), (''uuid'', JStr ''id-siteA'')]]) \<and>
   fst (main (service []) (desired Present None ''dir/tmpl.json'') True fresh) =
     Inr \<lparr>previous = JDict [(''uploadedFileExtension'', JStr ''json''),
                              (''uploadedFileName'', JStr ''tmpl'')],
          existing = JDict
            (base_payload (desired Present None ''dir/tmpl.json'')
               [JDict [(''enabled'', JBool True), (''uuid'', JStr ''id-siteA'')]] @
             [(''uploadedFileExtension'', JStr ''json''), (''uploadedFileName'', JStr ''tmpl'')])\<rparr> \<and>
   fst (main (service []) (desired Present None ''dir/tmpl'') True fresh) = Inl ValueError \<and>
   fst (main (service [requirement_without_uuid]) (desired Absent None ''a.json'') True fresh) =
     Inr \<lparr>previous = JDict [], existing = requirement_without_uuid\<rparr> \<and>
   requirement_without_uuid \<noteq> JDict []"
proof -
  have a: "fst (build_payload (service []) (desired Present None ''dir/tmpl.json'')
      [''siteA''] (JDict [])) =
     Inr (base_payload (desired Present None ''dir/tmpl.json'')
            [JDict [(''enabled'', JBool True), (''uuid'', JStr ''id-siteA'')]])"
    by (simp add: run_defs)
  have b: "fst (main (service []) (desired Present None ''dir/tmpl.json'') True fresh) =
     Inr \<lparr>previous = JDict [(''uploadedFileExtension'', JStr ''json''),
                              (''uploadedFileName'', JStr ''tmpl'')],
          existing = JDict
            (base_payload (desired Present None ''dir/tmpl.json'')
               [JDict [(''enabled'', JBool True), (''uuid'', JStr ''id-siteA'')]] @
             [(''uploadedFileExtension'', JStr ''json''), (''uploadedFileName'', JStr ''tmpl'')])\<rparr>"
    by (simp add: main_def present_branch_def reconcile_present_def attach_file_def run_defs)
  have c: "fst (main (service []) (desired Present None ''dir/tmpl'') True fresh) = Inl ValueError"
    by (simp add: main_def present_branch_def reconcile_present_def attach_file_def run_defs)
  have d: "fst (main (service [requirement_without_uuid]) (desired Absent None ''a.json'') True
      fresh) = Inr \<lparr>previous = JDict [], existing = requirement_without_uuid\<rparr>"
    by (simp add: main_def requirement_without_uuid_def run_defs)
  have e: "requirement_without_uuid \<noteq> JDict []"
    by (simp add: requirement_without_uuid_def)
  from a b c d e show ?thesis by (intro conjI)
qed


end
